theory Spec2Isabelle
  imports Complex_Main "HOL-Library.AList"
begin

section \<open>Exceptions\<close>

text \<open>
  The Python exceptions the modelled functions can raise. The last three constructors are
  the failure conditions that the specification names; no function of the code raises
  them, they are here so that statements about them can be written down.
\<close>

datatype error =
    ZeroDivisionError
  | IndexError
  | KeyError
  | ValueError
  | IOError
  | OSError
  | OverflowError
  | LibvirtError
  | DegenerateInterval
  | CounterRegression
  | InvalidModelInput

section \<open>The data collector (neat/locals/collector.py)\<close>

subsection \<open>calculate_cpu_mhz\<close>

text \<open>
  \<^verbatim>\<open>
  def calculate_cpu_mhz(cpus, previous_time, current_time,
                        previous_cpu_time, current_cpu_time):
      return int((current_cpu_time - previous_cpu_time) /
                 ((current_time - previous_time) * 1000000000 * cpus))
  \<close>
  The contract in the docstring types all five parameters as \<open>int\<close>, and the module is
  Python 2 (it uses the \<open>print\<close> statement and has no \<open>from __future__ import division\<close>),
  so \<open>/\<close> is floor division of unbounded integers, \<open>int\<close> of its result is the identity,
  and a zero divisor raises ZeroDivisionError. HOL's \<open>div\<close> on \<open>int\<close> rounds towards minus
  infinity as Python's does.
\<close>

definition calculate_cpu_mhz :: "int \<Rightarrow> int \<Rightarrow> int \<Rightarrow> int \<Rightarrow> int \<Rightarrow> error + int" where
  "calculate_cpu_mhz cpus previous_time current_time previous_cpu_time current_cpu_time =
     (let divisor = (current_time - previous_time) * 1000000000 * cpus
      in if divisor = 0 then Inl ZeroDivisionError
         else Inr ((current_cpu_time - previous_cpu_time) div divisor))"

subsection \<open>Dictionaries\<close>

text \<open>
  A Python \<open>dict\<close> is modelled as an association list with one entry per key; the order of
  the list stands for the order in which the dictionary is iterated. Assigning to a key
  replaces its entry in place or adds one at the end (\<open>AList.update\<close>), \<open>del d[k]\<close>
  removes the entry (\<open>AList.delete\<close>) and raises KeyError when there is none, and \<open>d[k]\<close>
  is \<open>map_of d k\<close>, raising KeyError on \<open>None\<close>.
\<close>

type_synonym ('k, 'v) dict = "('k \<times> 'v) list"

definition keys :: "('k, 'v) dict \<Rightarrow> 'k list" where
  "keys d = map fst d"

subsection \<open>The sets of added and removed VMs\<close>

text \<open>
  \<^verbatim>\<open>
  def substract_lists(list1, list2):
      return list(set(list1).difference(list2))
  def get_added_vms(previous_vms, current_vms):
      return substract_lists(current_vms, previous_vms)
  def get_removed_vms(previous_vms, current_vms):
      return substract_lists(previous_vms, current_vms)
  \<close>
  The result is a list without repetitions of the elements of \<open>list1\<close> that are not in
  \<open>list2\<close>. Python leaves the order of a set's elements open; the model lists them in the
  order of \<open>list1\<close>.
\<close>

definition substract_lists :: "'a list \<Rightarrow> 'a list \<Rightarrow> 'a list" where
  "substract_lists list1 list2 = remdups (filter (\<lambda>x. x \<notin> set list2) list1)"

definition get_added_vms :: "string list \<Rightarrow> string list \<Rightarrow> string list" where
  "get_added_vms previous_vms current_vms = substract_lists current_vms previous_vms"

definition get_removed_vms :: "string list \<Rightarrow> string list \<Rightarrow> string list" where
  "get_removed_vms previous_vms current_vms = substract_lists previous_vms current_vms"

subsection \<open>get_cpu_time\<close>

text \<open>
  \<^verbatim>\<open>
  def get_cpu_time(vir_connection, uuid):
      domain = vir_connection.lookupByUUIDString(uuid)
      return domain.getCPUStats(True, 0)[0]['cpu_time']
  \<close>
  The libvirt connection is outside the repository. It is modelled by what it answers for
  each UUID: the cumulative CPU time of the domain, or the exception that the lookup or the
  statistics call raises.
\<close>

type_synonym virConnect = "string \<Rightarrow> error + int"

definition get_cpu_time :: "virConnect \<Rightarrow> string \<Rightarrow> error + int" where
  "get_cpu_time vir_connection uuid = vir_connection uuid"

subsection \<open>get_cpu_mhz\<close>

text \<open>
  \<^verbatim>\<open>
  def get_cpu_mhz(vir_connection, physical_cpus, previous_cpu_time,
                  previous_time, current_time, current_vms, added_vm_data):
      previous_vms = previous_cpu_time.keys()
      added_vms = get_added_vms(previous_vms, current_vms)
      removed_vms = get_removed_vms(previous_vms, current_vms)
      cpu_mhz = {}

      for uuid, cpu_time in previous_cpu_time.items():
          current_cpu_time = get_cpu_time(vir_connection, uuid)
          cpu_mhz[uuid] = calculate_cpu_mhz(physical_cpus, previous_time,
                                            current_time, cpu_time,
                                            current_cpu_time)
          previous_cpu_time[uuid] = current_cpu_time

      for uuid in added_vms:
          if added_vm_data[uuid]:
              cpu_mhz[uuid] = added_vm_data[uuid][-1]
          previous_cpu_time[uuid] = get_cpu_time(vir_connection, uuid)

      for uuid in removed_vms:
          del previous_cpu_time[uuid]
          del cpu_mhz[uuid]

      return previous_cpu_time, cpu_mhz
  \<close>
  The function has no \<open>try\<close>: an exception raised in a loop body leaves the function at
  once. The dictionary \<open>previous_cpu_time\<close> is the caller's object and is changed in place,
  so an exceptional outcome carries the dictionary as it is at that moment
  (\<open>Inl (exception, previous_cpu_time)\<close>); \<open>cpu_mhz\<close> is local and is lost. Each loop is
  one recursive function over the list it iterates (in Python 2 \<open>keys()\<close> and \<open>items()\<close>
  are lists made before the loop starts).
\<close>

type_synonym counters = "(string, int) dict"
type_synonym samples = "(string, int) dict"
type_synonym 'a outcome = "(error \<times> counters) + 'a"

fun sample_previous_vms ::
  "virConnect \<Rightarrow> int \<Rightarrow> int \<Rightarrow> int \<Rightarrow> (string \<times> int) list \<Rightarrow> counters \<Rightarrow> samples
     \<Rightarrow> (counters \<times> samples) outcome" where
  "sample_previous_vms vir_connection physical_cpus previous_time current_time []
       previous_cpu_time cpu_mhz = Inr (previous_cpu_time, cpu_mhz)"
| "sample_previous_vms vir_connection physical_cpus previous_time current_time
       ((uuid, cpu_time) # items) previous_cpu_time cpu_mhz =
     (case get_cpu_time vir_connection uuid of
        Inl e \<Rightarrow> Inl (e, previous_cpu_time)
      | Inr current_cpu_time \<Rightarrow>
          (case calculate_cpu_mhz physical_cpus previous_time current_time
                  cpu_time current_cpu_time of
             Inl e \<Rightarrow> Inl (e, previous_cpu_time)
           | Inr mhz \<Rightarrow>
               sample_previous_vms vir_connection physical_cpus previous_time current_time
                 items (AList.update uuid current_cpu_time previous_cpu_time)
                 (AList.update uuid mhz cpu_mhz)))"

fun seed_added_vms ::
  "virConnect \<Rightarrow> (string, int list) dict \<Rightarrow> string list \<Rightarrow> counters \<Rightarrow> samples
     \<Rightarrow> (counters \<times> samples) outcome" where
  "seed_added_vms vir_connection added_vm_data [] previous_cpu_time cpu_mhz =
     Inr (previous_cpu_time, cpu_mhz)"
| "seed_added_vms vir_connection added_vm_data (uuid # added_vms) previous_cpu_time cpu_mhz =
     (case map_of added_vm_data uuid of
        None \<Rightarrow> Inl (KeyError, previous_cpu_time)
      | Some history \<Rightarrow>
          (let cpu_mhz' = (if history \<noteq> [] then AList.update uuid (last history) cpu_mhz
                           else cpu_mhz)
           in case get_cpu_time vir_connection uuid of
                Inl e \<Rightarrow> Inl (e, previous_cpu_time)
              | Inr current_cpu_time \<Rightarrow>
                  seed_added_vms vir_connection added_vm_data added_vms
                    (AList.update uuid current_cpu_time previous_cpu_time) cpu_mhz'))"

fun drop_removed_vms ::
  "string list \<Rightarrow> counters \<Rightarrow> samples \<Rightarrow> (counters \<times> samples) outcome" where
  "drop_removed_vms [] previous_cpu_time cpu_mhz = Inr (previous_cpu_time, cpu_mhz)"
| "drop_removed_vms (uuid # removed_vms) previous_cpu_time cpu_mhz =
     (if map_of previous_cpu_time uuid = None then Inl (KeyError, previous_cpu_time)
      else let previous_cpu_time' = AList.delete uuid previous_cpu_time
           in if map_of cpu_mhz uuid = None then Inl (KeyError, previous_cpu_time')
              else drop_removed_vms removed_vms previous_cpu_time'
                     (AList.delete uuid cpu_mhz))"

definition get_cpu_mhz ::
  "virConnect \<Rightarrow> int \<Rightarrow> counters \<Rightarrow> int \<Rightarrow> int \<Rightarrow> string list \<Rightarrow> (string, int list) dict
     \<Rightarrow> (counters \<times> samples) outcome" where
  "get_cpu_mhz vir_connection physical_cpus previous_cpu_time previous_time current_time
       current_vms added_vm_data =
     (let previous_vms = keys previous_cpu_time;
          added_vms = get_added_vms previous_vms current_vms;
          removed_vms = get_removed_vms previous_vms current_vms
      in case sample_previous_vms vir_connection physical_cpus previous_time current_time
                previous_cpu_time previous_cpu_time [] of
           Inl failure \<Rightarrow> Inl failure
         | Inr (previous_cpu_time1, cpu_mhz1) \<Rightarrow>
             (case seed_added_vms vir_connection added_vm_data added_vms
                     previous_cpu_time1 cpu_mhz1 of
                Inl failure \<Rightarrow> Inl failure
              | Inr (previous_cpu_time2, cpu_mhz2) \<Rightarrow>
                  drop_removed_vms removed_vms previous_cpu_time2 cpu_mhz2))"

subsection \<open>The local files\<close>

text \<open>
  The directory \<open><local_data_directory>/vm\<close> holds one file per VM, named by the UUID.
  It is modelled as a map from file names to file contents; \<open>os.path.join(path, uuid)\<close>
  names the entry \<open>uuid\<close> of the directory \<open>path\<close>. The directory is changed in place, so
  an exceptional outcome carries it as it is when the exception is raised.
\<close>

type_synonym directory = "string \<rightharpoonup> string"

text \<open>
  \<^verbatim>\<open>
  def cleanup_local_data(path, vms):
      for vm in vms:
          os.remove(os.path.join(path, vm))
  \<close>
  \<open>os.remove\<close> raises OSError when the file does not exist.
\<close>

fun cleanup_local_data :: "directory \<Rightarrow> string list \<Rightarrow> (error \<times> directory) + directory" where
  "cleanup_local_data path [] = Inr path"
| "cleanup_local_data path (vm # vms) =
     (case path vm of
        None \<Rightarrow> Inl (OSError, path)
      | Some content \<Rightarrow> cleanup_local_data (path(vm := None)) vms)"

subsection \<open>Strings, as far as append_data_locally uses them\<close>

text \<open>
  Python 2 \<open>str\<close> is a byte string. \<open>strip()\<close> removes the leading and trailing bytes
  that are whitespace (space, \<open>\t\<close>, \<open>\n\<close>, \<open>\x0b\<close>, \<open>\x0c\<close>, \<open>\r\<close>); \<open>splitlines()\<close>
  breaks at \<open>\n\<close>, \<open>\r\<close> and \<open>\r\n\<close>, drops the line ends and returns no empty last line;
  \<open>sep.join(xs)\<close> puts \<open>sep\<close> between the elements; \<open>str\<close> of an integer is its decimal
  numeral with \<open>-\<close> in front of a negative one, and \<open>str\<close> of a string is the string.
\<close>

definition is_space :: "char \<Rightarrow> bool" where
  "is_space c \<longleftrightarrow> c \<in> set [CHR '' '', CHR 0x09, CHR 0x0A, CHR 0x0B, CHR 0x0C, CHR 0x0D]"

definition strip :: "string \<Rightarrow> string" where
  "strip s = rev (dropWhile is_space (rev (dropWhile is_space s)))"

fun splitlines_from :: "string \<Rightarrow> string \<Rightarrow> string list" where
  "splitlines_from line [] = (if line = [] then [] else [line])"
| "splitlines_from line (c # cs) =
     (if c = CHR 0x0A then line # splitlines_from [] cs
      else if c = CHR 0x0D then
        (case cs of
           [] \<Rightarrow> [line]
         | d # ds \<Rightarrow> if d = CHR 0x0A then line # splitlines_from [] ds
                    else line # splitlines_from [] cs)
      else splitlines_from (line @ [c]) cs)"

definition splitlines :: "string \<Rightarrow> string list" where
  "splitlines s = splitlines_from [] s"

fun join :: "string \<Rightarrow> string list \<Rightarrow> string" where
  "join sep [] = []"
| "join sep [x] = x"
| "join sep (x # y # ys) = x @ sep @ join sep (y # ys)"

fun digits :: "nat \<Rightarrow> string" where
  "digits n = (if n < 10 then [''0123456789'' ! n]
               else digits (n div 10) @ [''0123456789'' ! (n mod 10)])"

declare digits.simps [simp del]

datatype py_value = PyStr string | PyInt int

fun str :: "py_value \<Rightarrow> string" where
  "str (PyStr s) = s"
| "str (PyInt i) = (if i < 0 then CHR ''-'' # digits (nat (- i)) else digits (nat i))"

text \<open>
  The lines that the collector itself writes are decimal numerals: they are not empty and
  hold no whitespace. This is the property of a line that reading a file back relies on.
\<close>

definition well_formed_line :: "string \<Rightarrow> bool" where
  "well_formed_line l \<longleftrightarrow> l \<noteq> [] \<and> (\<forall>c \<in> set l. \<not> is_space c)"

subsection \<open>Bounded deques\<close>

text \<open>
  \<open>collections.deque(iterable, maxlen)\<close> first converts \<open>maxlen\<close> to the C type
  \<open>Py_ssize_t\<close> (64 bits here, as on the usual 64-bit build of CPython) and raises
  OverflowError when it does not fit, that is from \<open>2^63\<close> on and below \<open>-2^63\<close>; it
  then raises ValueError for a negative \<open>maxlen\<close>; otherwise it starts empty and appends
  the elements of \<open>iterable\<close> one by one. \<open>append\<close> puts the element at the right end and,
  when the deque is then longer than \<open>maxlen\<close>, removes the leftmost element.
\<close>

record 'a deque =
  items :: "'a list"
  maxlen :: nat

definition deque_append :: "'a deque \<Rightarrow> 'a \<Rightarrow> 'a deque" where
  "deque_append d x =
     (let ys = items d @ [x]
      in d\<lparr>items := (if maxlen d < length ys then tl ys else ys)\<rparr>)"

definition deque :: "'a list \<Rightarrow> int \<Rightarrow> error + 'a deque" where
  "deque iterable n =
     (if n < - 9223372036854775808 \<or> 9223372036854775808 \<le> n then Inl OverflowError
      else if n < 0 then Inl ValueError
      else Inr (fold (\<lambda>x d. deque_append d x) iterable \<lparr>items = [], maxlen = nat n\<rparr>))"

text \<open>
  The closed form of what the deque of \<open>append_data_locally\<close> holds after the append: the
  last \<open>data_length\<close> elements of the lines read followed by the value. It is no part of
  the program; \<open>append_data_locally_step\<close> below proves that it is what the program writes.
\<close>

definition appended_history :: "int \<Rightarrow> string \<Rightarrow> int \<Rightarrow> py_value list" where
  "appended_history data_length content v =
     (let old = map PyStr (splitlines (strip content))
      in drop (length (old @ [PyInt v]) - nat data_length) (old @ [PyInt v]))"

subsection \<open>append_data_locally\<close>

text \<open>
  \<^verbatim>\<open>
  def append_data_locally(path, data, data_length):
      for uuid, value in data.items():
          with open(os.path.join(path, uuid), 'r+') as f:
              values = deque(f.read().strip().splitlines(), data_length)
              values.append(value)
              f.truncate(0)
              f.seek(0)
              f.write('\n'.join([str(x) for x in values]) + '\n')
  \<close>
  Opening a file that does not exist in mode \<open>r+\<close> raises IOError. The deque holds the
  lines read (strings) and the appended value (an integer).
\<close>

fun append_data_locally ::
  "directory \<Rightarrow> (string, int) dict \<Rightarrow> int \<Rightarrow> (error \<times> directory) + directory" where
  "append_data_locally path [] data_length = Inr path"
| "append_data_locally path ((uuid, v) # data) data_length =
     (case path uuid of
        None \<Rightarrow> Inl (IOError, path)
      | Some content \<Rightarrow>
          (case deque (map PyStr (splitlines (strip content))) data_length of
             Inl e \<Rightarrow> Inl (e, path)
           | Inr values \<Rightarrow>
               append_data_locally
                 (path(uuid \<mapsto> join ''\<newline>'' (map str (items (deque_append values (PyInt v))))
                                 @ ''\<newline>''))
                 data data_length))"

section \<open>The optimisation problem of MHOD (neat/local/overload/mhod/nlp.py)\<close>

text \<open>
  An L function takes the state vector, the matrix of transition probabilities and the
  tuple of window sizes and returns a number. Python's floating point numbers are
  idealised as real numbers: \<open>float(x)\<close> is the embedding of the integers into the reals
  and \<open>/\<close> is exact division, which raises ZeroDivisionError for a zero divisor (Python
  does so for floats as for integers, it never returns an infinity or a NaN there).
  \<^verbatim>\<open>
  def build_objective(ls, state_vector, p):
      def objective(*m):
          return sum(l(state_vector, p, m) for l in ls)
      return objective

  def build_constraint(otf, migration_time, ls, state_vector, p, time_in_states, time_in_state_n):
      def constraint(*m):
          return float(migration_time + time_in_state_n + ls[-1](state_vector, p, m)) / \
                 (migration_time + time_in_states + sum(l(state_vector, p, m) for l in ls))
      return (constraint, operator.le, otf)
  \<close>
  \<open>ls[-1]\<close> raises IndexError for an empty list; it is evaluated before the divisor.
\<close>

type_synonym l_function = "int list \<Rightarrow> real list list \<Rightarrow> int list \<Rightarrow> real"

text \<open>The L function \<open>f\<close> of the specification's example, which returns 0 for any argument.\<close>

definition zero_l :: l_function where
  "zero_l state_vector p m = 0"

definition build_objective ::
  "l_function list \<Rightarrow> int list \<Rightarrow> real list list \<Rightarrow> (int list \<Rightarrow> real)" where
  "build_objective ls state_vector p = (\<lambda>m. sum_list (map (\<lambda>l. l state_vector p m) ls))"

definition operator_le :: "real \<Rightarrow> real \<Rightarrow> bool" where
  "operator_le a b \<longleftrightarrow> a \<le> b"

text \<open>
  Python's division of two floating point numbers, on the reals: a zero divisor raises
  ZeroDivisionError.
\<close>

definition truediv :: "real \<Rightarrow> real \<Rightarrow> error + real" where
  "truediv a b = (if b = 0 then Inl ZeroDivisionError else Inr (a / b))"

definition build_constraint ::
  "real \<Rightarrow> int \<Rightarrow> l_function list \<Rightarrow> int list \<Rightarrow> real list list \<Rightarrow> int \<Rightarrow> int
     \<Rightarrow> (int list \<Rightarrow> error + real) \<times> (real \<Rightarrow> real \<Rightarrow> bool) \<times> real" where
  "build_constraint otf migration_time ls state_vector p time_in_states time_in_state_n =
     (let constraint = (\<lambda>m.
            if ls = [] then Inl IndexError
            else truediv
                   (real_of_int (migration_time + time_in_state_n) + (last ls) state_vector p m)
                   (real_of_int (migration_time + time_in_states)
                      + sum_list (map (\<lambda>l. l state_vector p m) ls)))
      in (constraint, operator_le, otf))"

section \<open>Properties of the counter converter\<close>

lemma calculate_cpu_mhz_divisor_pos:
  fixes cpus t_prev t_now :: int
  assumes "0 < cpus" and "t_prev < t_now"
  shows "0 < (t_now - t_prev) * 1000000000 * cpus"
  using assms by simp

lemma calculate_cpu_mhz_Inr:
  "(current_time - previous_time) * 1000000000 * cpus \<noteq> 0 \<Longrightarrow>
     calculate_cpu_mhz cpus previous_time current_time previous_cpu_time current_cpu_time
       = Inr ((current_cpu_time - previous_cpu_time)
                div ((current_time - previous_time) * 1000000000 * cpus))"
  unfolding calculate_cpu_mhz_def Let_def by (rule if_not_P)

lemma calculate_cpu_mhz_Inl:
  "(current_time - previous_time) * 1000000000 * cpus = 0 \<Longrightarrow>
     calculate_cpu_mhz cpus previous_time current_time previous_cpu_time current_cpu_time
       = Inl ZeroDivisionError"
  unfolding calculate_cpu_mhz_def Let_def by (rule if_P)

text \<open>
  Claim C2. For a positive number of CPUs, timestamps \<open>t_prev < t_now\<close> and counters
  \<open>c_prev \<le> c_now\<close>, the converter returns the integer truncation (rounding towards zero)
  of the quotient \<open>(c_now - c_prev) / ((t_now - t_prev) * 10^9 * cpus)\<close> taken in the reals;
  the quotient is not negative there, and \<open>rate(2, 0, 1, 0, 2000000000) = 1\<close>.
\<close>

theorem calculate_cpu_mhz_truncates:
  fixes cpus t_prev t_now c_prev c_now :: int
  shows "(0 < cpus \<and> t_prev < t_now \<and> c_prev \<le> c_now \<longrightarrow>
            (let q = real_of_int (c_now - c_prev)
                       / real_of_int ((t_now - t_prev) * 1000000000 * cpus)
             in calculate_cpu_mhz cpus t_prev t_now c_prev c_now
                  = Inr (if q < 0 then \<lceil>q\<rceil> else \<lfloor>q\<rfloor>) \<and> 0 \<le> q))
         \<and> calculate_cpu_mhz 2 0 1 0 2000000000 = Inr 1"
proof (intro conjI impI)
  show "calculate_cpu_mhz 2 0 1 0 2000000000 = Inr 1"
    by (simp add: calculate_cpu_mhz_def)
next
  assume pre: "0 < cpus \<and> t_prev < t_now \<and> c_prev \<le> c_now"
  let ?n = "c_now - c_prev"
  let ?d = "(t_now - t_prev) * 1000000000 * cpus"
  let ?q = "real_of_int ?n / real_of_int ?d"
  have d: "0 < ?d" using pre by (intro calculate_cpu_mhz_divisor_pos) simp_all
  have n: "0 \<le> ?n" using pre by simp
  have "0 \<le> real_of_int ?n" and "0 < real_of_int ?d"
    using n d by (simp_all only: of_int_0_le_iff of_int_0_less_iff)
  then have q0: "0 \<le> ?q" by (rule divide_nonneg_pos)
  have fl: "\<lfloor>?q\<rfloor> = ?n div ?d"
    by (rule floor_divide_of_int_eq)
  have "?d \<noteq> 0" using d by (rule less_imp_neq [THEN not_sym])
  then have "calculate_cpu_mhz cpus t_prev t_now c_prev c_now = Inr (?n div ?d)"
    by (rule calculate_cpu_mhz_Inr)
  with q0 fl show "let q = ?q
      in calculate_cpu_mhz cpus t_prev t_now c_prev c_now
           = Inr (if q < 0 then \<lceil>q\<rceil> else \<lfloor>q\<rfloor>) \<and> 0 \<le> q"
    unfolding Let_def by (simp only: not_less [symmetric] if_False simp_thms)
qed

theorem calculate_cpu_mhz_truncates_witness:
  "(0::int) < 3 \<and> (10::int) < 15 \<and> (7::int) \<le> 40000000007
   \<and> calculate_cpu_mhz 3 10 15 7 40000000007 = Inr 2"
  using calculate_cpu_mhz_truncates [of 3 10 15 7 40000000007]
  by (simp add: Let_def)

text \<open>
  Claim C3 fails as stated: with equal timestamps the division by zero is performed and
  what is raised is Python's ZeroDivisionError, not a DegenerateInterval condition.
\<close>

theorem calculate_cpu_mhz_equal_times_counterexample:
  "calculate_cpu_mhz 2 5 5 0 0 = Inl ZeroDivisionError
   \<and> calculate_cpu_mhz 2 5 5 0 0 \<noteq> Inl DegenerateInterval"
  by (simp add: calculate_cpu_mhz_def)

text \<open>
  Claim C3, amended. For every number of CPUs and all counters, with equal timestamps the
  converter returns no value: the division by zero raises ZeroDivisionError.
\<close>

theorem calculate_cpu_mhz_equal_times:
  "calculate_cpu_mhz cpus t t c_prev c_now = Inl ZeroDivisionError"
  by (simp add: calculate_cpu_mhz_def)

text \<open>
  Claim C4 fails as stated: one CPU, one second, a counter that went from \<open>2 * 10^9\<close> back
  to 0. The converter raises nothing and returns the negative rate \<open>-2\<close>.
\<close>

theorem calculate_cpu_mhz_regression_counterexample:
  "calculate_cpu_mhz 1 0 1 2000000000 0 = Inr (- 2)
   \<and> calculate_cpu_mhz 1 0 1 2000000000 0 \<noteq> Inl (CounterRegression)"
  by (simp add: calculate_cpu_mhz_def)

text \<open>
  Claim C4, amended. For a positive number of CPUs and timestamps \<open>t_prev < t_now\<close>, when
  \<open>c_now < c_prev\<close> the converter does not fail: it returns the floor of the quotient,
  which is a negative rate.
\<close>

theorem calculate_cpu_mhz_regression:
  fixes cpus t_prev t_now c_prev c_now :: int
  shows "0 < cpus \<and> t_prev < t_now \<and> c_now < c_prev \<longrightarrow>
           calculate_cpu_mhz cpus t_prev t_now c_prev c_now
             = Inr ((c_now - c_prev) div ((t_now - t_prev) * 1000000000 * cpus))
           \<and> (c_now - c_prev) div ((t_now - t_prev) * 1000000000 * cpus) < 0"
proof (intro impI conjI)
  assume pre: "0 < cpus \<and> t_prev < t_now \<and> c_now < c_prev"
  let ?d = "(t_now - t_prev) * 1000000000 * cpus"
  have d: "0 < ?d" using pre by (intro calculate_cpu_mhz_divisor_pos) simp_all
  then have "?d \<noteq> 0" by (rule less_imp_neq [THEN not_sym])
  then show "calculate_cpu_mhz cpus t_prev t_now c_prev c_now = Inr ((c_now - c_prev) div ?d)"
    by (rule calculate_cpu_mhz_Inr)
  have "c_now - c_prev < 0" using pre by simp
  then show "(c_now - c_prev) div ?d < 0" using d by (rule div_neg_pos_less0)
qed

theorem calculate_cpu_mhz_regression_witness:
  "(0::int) < 2 \<and> (0::int) < 10 \<and> (3::int) < 5
   \<and> calculate_cpu_mhz 2 0 10 5 3 = Inr (- 1)"
  using calculate_cpu_mhz_regression [of 2 0 10 3 5]
  by simp

section \<open>Properties of the MHOD constraint\<close>

lemma build_constraint_triple:
  "snd (build_constraint otf migration_time ls state_vector p time_in_states time_in_state_n)
     = (operator_le, otf)"
  by (simp add: build_constraint_def Let_def)

lemma build_constraint_value:
  "ls \<noteq> [] \<Longrightarrow>
   fst (build_constraint otf migration_time ls state_vector p time_in_states time_in_state_n) m
     = truediv (real_of_int (migration_time + time_in_state_n) + (last ls) state_vector p m)
         (real_of_int (migration_time + time_in_states)
            + sum_list (map (\<lambda>l. l state_vector p m) ls))"
  by (simp add: build_constraint_def Let_def)

text \<open>
  Claim C1. For every \<open>otf\<close>, \<open>migration_time\<close>, non-empty list \<open>ls\<close> of L functions,
  state vector, matrix \<open>p\<close>, \<open>time_in_states\<close> and \<open>time_in_state_n\<close>, \<open>build_constraint\<close>
  returns the triple of a predicate, \<open>\<le>\<close> and \<open>otf\<close>, and the predicate applied to any
  window sizes \<open>m\<close> evaluates to the quotient, by the program's division, of
  \<open>migration_time + time_in_state_n + ls[-1](state_vector, p, m)\<close> by
  \<open>migration_time + time_in_states + \<Sum>l. l(state_vector, p, m)\<close>: the number that is the
  quotient wherever the divisor is not zero (where it is zero there is no quotient, and
  the program's division raises). With \<open>migration_time = 60\<close>, both times 0 and the single
  L function that returns 0 the value is 1, which satisfies the bound for \<open>otf = 1\<close> and
  violates it for \<open>otf = 1/2\<close>.
\<close>

theorem build_constraint_ratio:
  fixes ls :: "l_function list"
  shows
    "(ls \<noteq> [] \<longrightarrow>
        (\<exists>constraint.
           build_constraint otf migration_time ls state_vector p time_in_states time_in_state_n
             = (constraint, operator_le, otf)
           \<and> constraint m
               = truediv
                   (real_of_int (migration_time + time_in_state_n) + (last ls) state_vector p m)
                   (real_of_int (migration_time + time_in_states)
                      + sum_list (map (\<lambda>l. l state_vector p m) ls))
           \<and> (real_of_int (migration_time + time_in_states)
                 + sum_list (map (\<lambda>l. l state_vector p m) ls) \<noteq> 0 \<longrightarrow>
               constraint m
                 = Inr ((real_of_int (migration_time + time_in_state_n)
                           + (last ls) state_vector p m)
                        / (real_of_int (migration_time + time_in_states)
                             + sum_list (map (\<lambda>l. l state_vector p m) ls))))))
     \<and> (case build_constraint 1 60 [zero_l] state_vector p 0 0 of
          (constraint, compare, bound) \<Rightarrow> constraint m = Inr 1 \<and> compare 1 bound)
     \<and> (case build_constraint (1 / 2) 60 [zero_l] state_vector p 0 0 of
          (constraint, compare, bound) \<Rightarrow> constraint m = Inr 1 \<and> \<not> compare 1 bound)"
proof (intro conjI impI)
  let ?b = "build_constraint otf migration_time ls state_vector p time_in_states time_in_state_n"
  let ?x = "real_of_int (migration_time + time_in_state_n) + (last ls) state_vector p m"
  let ?y = "real_of_int (migration_time + time_in_states)
              + sum_list (map (\<lambda>l. l state_vector p m) ls)"
  assume ls: "ls \<noteq> []"
  have triple: "?b = (fst ?b, operator_le, otf)"
    using build_constraint_triple
      [of otf migration_time ls state_vector p time_in_states time_in_state_n]
    by (simp add: prod_eq_iff)
  have val: "fst ?b m = truediv ?x ?y"
    using ls by (rule build_constraint_value)
  have "?y \<noteq> 0 \<longrightarrow> fst ?b m = Inr (?x / ?y)"
    unfolding val by (simp add: truediv_def)
  with triple val show "\<exists>constraint. ?b = (constraint, operator_le, otf)
      \<and> constraint m = truediv ?x ?y \<and> (?y \<noteq> 0 \<longrightarrow> constraint m = Inr (?x / ?y))"
    by blast
next
  show "case build_constraint 1 60 [zero_l] state_vector p 0 0 of
          (constraint, compare, bound) \<Rightarrow> constraint m = Inr 1 \<and> compare 1 bound"
    by (simp add: build_constraint_def zero_l_def operator_le_def truediv_def)
next
  show "case build_constraint (1 / 2) 60 [zero_l] state_vector p 0 0 of
          (constraint, compare, bound) \<Rightarrow> constraint m = Inr 1 \<and> \<not> compare 1 bound"
    by (simp add: build_constraint_def zero_l_def operator_le_def truediv_def)
qed

theorem build_constraint_ratio_witness:
  "[zero_l, (\<lambda>state_vector p m. 10)] \<noteq> []
   \<and> fst (build_constraint (3 / 10) 30 [zero_l, (\<lambda>state_vector p m. 10)] [0, 1] [] 60 20) [2, 2]
       = Inr (3 / 5)"
  using build_constraint_ratio
    [where ls = "[zero_l, (\<lambda>state_vector p m. 10)]" and migration_time = 30
       and time_in_states = 60 and state_vector = "[0, 1]" and p = "[]" and m = "[2, 2]"
       and otf = "3 / 10" and time_in_state_n = 20]
  by (auto simp add: zero_l_def truediv_def)

text \<open>
  Claim C5 fails as stated: with a zero divisor the predicate propagates the division by
  zero as ZeroDivisionError; it does not fail with an InvalidModelInput condition.
\<close>

theorem build_constraint_zero_divisor_counterexample:
  "fst (build_constraint (1 / 2) 0 [zero_l, zero_l] [0] [[1]] 0 0) [1, 1] = Inl ZeroDivisionError
   \<and> fst (build_constraint (1 / 2) 0 [zero_l, zero_l] [0] [[1]] 0 0) [1, 1]
       \<noteq> Inl InvalidModelInput"
  by (simp add: build_constraint_def zero_l_def truediv_def)

text \<open>
  Claim C5, amended. For a non-empty list of L functions, when the divisor
  \<open>migration_time + time_in_states + \<Sum>l. l(state_vector, p, m)\<close> is zero, evaluating the
  predicate built by \<open>build_constraint\<close> returns no number (no infinity, no NaN): the
  division raises ZeroDivisionError.
\<close>

theorem build_constraint_zero_divisor:
  fixes ls :: "l_function list"
  shows "ls \<noteq> [] \<and> real_of_int (migration_time + time_in_states)
                  + sum_list (map (\<lambda>l. l state_vector p m) ls) = 0 \<longrightarrow>
         fst (build_constraint otf migration_time ls state_vector p time_in_states
                time_in_state_n) m = Inl ZeroDivisionError"
  by (simp add: build_constraint_value truediv_def)

theorem build_constraint_zero_divisor_witness:
  "[(\<lambda>state_vector p m. - 5), zero_l] \<noteq> []
   \<and> fst (build_constraint 1 2 [(\<lambda>state_vector p m. - 5), zero_l] [] [] 3 1) []
       = Inl ZeroDivisionError"
  using build_constraint_zero_divisor
    [of "[(\<lambda>state_vector p m. - 5), zero_l]" 2 3 "[]" "[]" "[]" 1 1]
  by (simp add: zero_l_def truediv_def)

section \<open>Properties of the local files\<close>

text \<open>
  Claim C7 fails as stated: after the record of a VM has been deleted, deleting it again
  raises OSError.
\<close>

theorem cleanup_local_data_twice_counterexample:
  "cleanup_local_data (Map.empty(''vm1'' \<mapsto> ''1\<newline>'')) [''vm1''] = Inr Map.empty
   \<and> cleanup_local_data Map.empty [''vm1''] = Inl (OSError, Map.empty)"
  by simp

text \<open>
  Claim C7, amended. Deleting the local record of a VM that has one removes the record and
  leaves the other records as they are. Deleting is not idempotent: a second delete of the
  now absent record raises OSError and changes nothing.
\<close>

theorem cleanup_local_data_twice:
  "path vm = Some content \<longrightarrow>
     cleanup_local_data path [vm] = Inr (path(vm := None))
     \<and> (path(vm := None)) vm = None
     \<and> cleanup_local_data (path(vm := None)) [vm] = Inl (OSError, path(vm := None))"
  by simp

theorem cleanup_local_data_twice_witness:
  "(Map.empty(''a'' \<mapsto> ''5\<newline>'', ''b'' \<mapsto> ''7\<newline>'')) ''b'' = Some ''7\<newline>''
   \<and> cleanup_local_data (Map.empty(''a'' \<mapsto> ''5\<newline>'', ''b'' \<mapsto> ''7\<newline>'')) [''b'']
       = Inr (Map.empty(''a'' \<mapsto> ''5\<newline>''))
   \<and> cleanup_local_data (Map.empty(''a'' \<mapsto> ''5\<newline>'')) [''b'']
       = Inl (OSError, Map.empty(''a'' \<mapsto> ''5\<newline>''))"
  using cleanup_local_data_twice
    [of "Map.empty(''a'' \<mapsto> ''5\<newline>'', ''b'' \<mapsto> ''7\<newline>'')" "''b''" "''7\<newline>''"]
  by simp

subsection \<open>Appending to a bounded history\<close>

lemma deque_append_items:
  assumes "items d = drop (length zs - maxlen d) zs"
  shows "items (deque_append d x) = drop (length (zs @ [x]) - maxlen d) (zs @ [x])"
    and "maxlen (deque_append d x) = maxlen d"
proof -
  show "maxlen (deque_append d x) = maxlen d" by (simp add: deque_append_def Let_def)
  show "items (deque_append d x) = drop (length (zs @ [x]) - maxlen d) (zs @ [x])"
  proof (cases "maxlen d \<le> length zs")
    case True
    let ?k = "length zs - maxlen d"
    have full: "maxlen d < length (items d @ [x])" using assms True by simp
    have eq: "length (zs @ [x]) - maxlen d = Suc ?k" using True by simp
    show ?thesis
    proof (cases "maxlen d = 0")
      case True
      then show ?thesis using assms by (simp add: deque_append_def Let_def)
    next
      case False
      with True have k: "?k < length zs" by simp
      then have "drop ?k zs \<noteq> []" by simp
      then have "tl (drop ?k zs @ [x]) = tl (drop ?k zs) @ [x]" by simp
      also have "tl (drop ?k zs) = drop (Suc ?k) zs" by (simp add: drop_Suc tl_drop)
      finally have "tl (items d @ [x]) = drop (Suc ?k) (zs @ [x])"
        using assms k by simp
      with full show ?thesis
        unfolding eq by (simp add: deque_append_def Let_def)
    qed
  next
    case False
    then show ?thesis using assms by (simp add: deque_append_def Let_def)
  qed
qed

lemma fold_deque_append_items:
  "items d = drop (length zs - maxlen d) zs \<Longrightarrow>
   items (fold (\<lambda>x d. deque_append d x) xs d) = drop (length (zs @ xs) - maxlen d) (zs @ xs)
   \<and> maxlen (fold (\<lambda>x d. deque_append d x) xs d) = maxlen d"
proof (induction xs arbitrary: d zs)
  case Nil
  then show ?case by simp
next
  case (Cons x xs)
  have "items (deque_append d x)
      = drop (length (zs @ [x]) - maxlen (deque_append d x)) (zs @ [x])"
    using deque_append_items [OF Cons.prems, of x] by simp
  from Cons.IH [OF this] show ?case
    by (simp add: deque_append_items(2) [OF Cons.prems])
qed

lemma deque_Inr:
  "0 \<le> n \<Longrightarrow> n < 9223372036854775808 \<Longrightarrow>
   \<exists>d. deque xs n = Inr d \<and> items d = drop (length xs - nat n) xs \<and> maxlen d = nat n"
  using fold_deque_append_items [of "\<lparr>items = [], maxlen = nat n\<rparr>" "[]" xs]
  by (simp add: deque_def)

lemma deque_Inr_range:
  "deque xs n = Inr d \<Longrightarrow> 0 \<le> n \<and> n < 9223372036854775808"
  by (auto simp: deque_def split: if_splits)


lemma digits_well_formed: "well_formed_line (digits n)"
proof (induction n rule: digits.induct)
  case (1 n)
  have d: "\<And>k. k < 10 \<Longrightarrow> \<not> is_space (''0123456789'' ! k)"
  proof -
    fix k :: nat assume "k < 10"
    then have "''0123456789'' ! k \<in> set ''0123456789''" by (intro nth_mem) simp
    then show "\<not> is_space (''0123456789'' ! k)" by (auto simp: is_space_def)
  qed
  show ?case
  proof (cases "n < 10")
    case True
    then show ?thesis using d [of n] by (subst digits.simps) (simp add: well_formed_line_def)
  next
    case False
    with "1.IH" have "well_formed_line (digits (n div 10))" by simp
    moreover have "\<not> is_space (''0123456789'' ! (n mod 10))" by (rule d) simp
    ultimately show ?thesis using False
      by (subst digits.simps) (simp add: well_formed_line_def)
  qed
qed

lemma str_PyInt_well_formed: "well_formed_line (str (PyInt i))"
  using digits_well_formed [of "nat i"] digits_well_formed [of "nat (- i)"]
  by (simp add: well_formed_line_def is_space_def)

lemma splitlines_from_line:
  "\<forall>c \<in> set l. \<not> is_space c \<Longrightarrow> splitlines_from cur (l @ rest) = splitlines_from (cur @ l) rest"
proof (induction l arbitrary: cur)
  case Nil
  then show ?case by simp
next
  case (Cons c l)
  then have "c \<noteq> CHR 0x0A" "c \<noteq> CHR 0x0D" by (auto simp: is_space_def)
  with Cons show ?case by simp
qed

lemma splitlines_from_join:
  "ls \<noteq> [] \<Longrightarrow> \<forall>l \<in> set ls. well_formed_line l \<Longrightarrow>
   splitlines_from [] (join ''\<newline>'' ls) = ls"
proof (induction "''\<newline>''" ls rule: join.induct)
  case 1
  then show ?case by simp
next
  case (2 x)
  then have "splitlines_from [] (x @ []) = splitlines_from ([] @ x) []"
    by (intro splitlines_from_line) (simp add: well_formed_line_def)
  with 2 show ?case by (simp add: well_formed_line_def)
next
  case (3 x y ys)
  then have x: "\<forall>c \<in> set x. \<not> is_space c" by (simp add: well_formed_line_def)
  have "splitlines_from [] (x @ (''\<newline>'' @ join ''\<newline>'' (y # ys)))
          = splitlines_from ([] @ x) (''\<newline>'' @ join ''\<newline>'' (y # ys))"
    using x by (rule splitlines_from_line)
  with 3 show ?case by simp
qed

lemma join_ends:
  "ls \<noteq> [] \<Longrightarrow> \<forall>l \<in> set ls. l \<noteq> [] \<Longrightarrow>
   join sep ls \<noteq> [] \<and> hd (join sep ls) = hd (hd ls) \<and> last (join sep ls) = last (last ls)"
  by (induction sep ls rule: join.induct) auto

lemma strip_line_end:
  assumes "s \<noteq> []" and "\<not> is_space (hd s)" and "\<not> is_space (last s)"
  shows "strip (s @ ''\<newline>'') = s"
proof -
  have 1: "dropWhile is_space (s @ ''\<newline>'') = s @ ''\<newline>''"
    using assms by (cases s) simp_all
  have "rev s \<noteq> []" "\<not> is_space (hd (rev s))"
    using assms by (simp_all add: hd_rev)
  then have 2: "dropWhile is_space (rev s) = rev s" by (cases "rev s") simp_all
  have "is_space CHR 0x0A" by (simp add: is_space_def)
  then show ?thesis unfolding strip_def 1 using 2 by simp
qed

lemma read_back:
  assumes "\<forall>l \<in> set ls. well_formed_line l"
  shows "splitlines (strip (join ''\<newline>'' ls @ ''\<newline>'')) = ls"
proof (cases "ls = []")
  case True
  then show ?thesis by (simp add: splitlines_def strip_def is_space_def)
next
  case False
  from assms have ne: "\<forall>l \<in> set ls. l \<noteq> []" by (simp add: well_formed_line_def)
  note e = join_ends [OF False ne, of "''\<newline>''"]
  have "hd ls \<in> set ls" "last ls \<in> set ls" using False by simp_all
  with assms have "well_formed_line (hd ls)" "well_formed_line (last ls)" by blast+
  then have "\<not> is_space (hd (hd ls))" "\<not> is_space (last (last ls))"
    by (simp_all add: well_formed_line_def)
  with e have "strip (join ''\<newline>'' ls @ ''\<newline>'') = join ''\<newline>'' ls"
    by (intro strip_line_end) simp_all
  then show ?thesis
    using splitlines_from_join [OF False assms] by (simp add: splitlines_def)
qed

lemma append_data_locally_step:
  assumes "path uuid = Some content" and "0 \<le> data_length"
    and "data_length < 9223372036854775808"
  shows "append_data_locally path ((uuid, v) # data) data_length
           = append_data_locally
               (path(uuid \<mapsto> join ''\<newline>'' (map str (appended_history data_length content v))
                               @ ''\<newline>''))
               data data_length"
proof -
  let ?old = "map PyStr (splitlines (strip content))"
  from deque_Inr [OF assms(2,3), of ?old] obtain d where
    d: "deque ?old data_length = Inr d" "items d = drop (length ?old - maxlen d) ?old"
       "maxlen d = nat data_length"
    by auto
  have "items (deque_append d (PyInt v)) = appended_history data_length content v"
    using deque_append_items(1) [OF d(2), of "PyInt v"] d(3)
    by (simp add: appended_history_def Let_def)
  then show ?thesis using assms(1) d(1) by simp
qed

lemma append_data_locally_InrD:
  assumes "append_data_locally path ((uuid, v) # data) data_length = Inr path'"
  obtains content where "path uuid = Some content" "0 \<le> data_length"
    "data_length < 9223372036854775808"
    "append_data_locally
       (path(uuid \<mapsto> join ''\<newline>'' (map str (appended_history data_length content v))
                       @ ''\<newline>''))
       data data_length = Inr path'"
proof -
  from assms obtain content d where c: "path uuid = Some content"
    and d: "deque (map PyStr (splitlines (strip content))) data_length = Inr d"
    by (auto split: option.splits sum.splits)
  from deque_Inr_range [OF d] have r: "0 \<le> data_length" "data_length < 9223372036854775808"
    by simp_all
  from assms show thesis
    unfolding append_data_locally_step [of path uuid content data_length v data, OF c r]
    by (rule that [OF c r])
qed

lemma appended_history_properties:
  fixes data_length v :: int and content :: string
  assumes "0 < data_length"
  defines "old \<equiv> map PyStr (splitlines (strip content))"
    and "new \<equiv> appended_history data_length content v"
  shows "length new = min (length old + 1) (nat data_length)"
    and "length new \<le> nat data_length"
    and "last new = PyInt v"
    and "length new = nat data_length \<Longrightarrow>
           take (nat data_length - 1) new = drop (length old - (nat data_length - 1)) old"
    and "\<forall>l \<in> set (splitlines (strip content)). well_formed_line l \<Longrightarrow>
           splitlines (strip (join ''\<newline>'' (map str new) @ ''\<newline>'')) = map str new"
proof -
  define n where "n = nat data_length"
  have n: "0 < n" using assms(1) by (simp add: n_def)
  have new: "new = drop (length (old @ [PyInt v]) - n) (old @ [PyInt v])"
    by (simp add: new_def old_def appended_history_def Let_def n_def)
  show len: "length new = min (length old + 1) (nat data_length)"
    by (simp add: new n_def)
  then show "length new \<le> nat data_length" by simp
  show "last new = PyInt v" using n by (simp add: new)
  show "take (nat data_length - 1) new = drop (length old - (nat data_length - 1)) old"
    if "length new = nat data_length"
  proof -
    from that len have "n \<le> length old + 1" by (simp add: n_def)
    with n have k: "length (old @ [PyInt v]) - n = length old - (n - 1)"
      "length old - (n - 1) \<le> length old" "length (drop (length old - (n - 1)) old) = n - 1"
      by simp_all
    have "new = drop (length old - (n - 1)) old @ [PyInt v]"
      unfolding new k(1) using k(2) by simp
    then show ?thesis using k(3) by (simp add: n_def)
  qed
  show "splitlines (strip (join ''\<newline>'' (map str new) @ ''\<newline>'')) = map str new"
    if wf: "\<forall>l \<in> set (splitlines (strip content)). well_formed_line l"
  proof (rule read_back, rule ballI)
    fix l assume "l \<in> set (map str new)"
    then obtain x where x: "x \<in> set new" "l = str x" by auto
    from x(1) have "x \<in> set (old @ [PyInt v])" unfolding new by (rule in_set_dropD)
    then show "well_formed_line l"
      using wf x(2) str_PyInt_well_formed [of v] by (auto simp: old_def)
  qed
qed

lemma append_data_locally_result:
  "append_data_locally path data data_length = Inr path' \<Longrightarrow> distinct (keys data) \<Longrightarrow>
     (\<forall>uuid. uuid \<notin> set (keys data) \<longrightarrow> path' uuid = path uuid)
     \<and> (\<forall>(uuid, v) \<in> set data. \<exists>content.
           path uuid = Some content
           \<and> path' uuid = Some (join ''\<newline>'' (map str (appended_history data_length content v))
                                @ ''\<newline>''))"
proof (induction data arbitrary: path)
  case Nil
  then show ?case by simp
next
  case (Cons entry data)
  obtain uuid v where entry: "entry = (uuid, v)" by (cases entry)
  from Cons.prems(2) have fresh: "uuid \<notin> set (keys data)" and dist: "distinct (keys data)"
    by (simp_all add: entry keys_def)
  from Cons.prems(1) obtain content where
    c: "path uuid = Some content" and
    rest: "append_data_locally
       (path(uuid \<mapsto> join ''\<newline>'' (map str (appended_history data_length content v))
                       @ ''\<newline>''))
       data data_length = Inr path'"
    unfolding entry by (rule append_data_locally_InrD)
  note IH = Cons.IH [OF rest dist]
  from IH fresh have here: "path' uuid
      = Some (join ''\<newline>'' (map str (appended_history data_length content v)) @ ''\<newline>'')"
    by simp
  have others: "\<exists>content. path u = Some content
           \<and> path' u = Some (join ''\<newline>'' (map str (appended_history data_length content w))
                             @ ''\<newline>'')"
    if "(u, w) \<in> set data" for u w
  proof -
    from that have "u \<in> set (keys data)" by (force simp: keys_def)
    with fresh have "u \<noteq> uuid" by blast
    with IH that show ?thesis by fastforce
  qed
  show ?case
  proof (intro conjI allI impI)
    fix u assume "u \<notin> set (keys (entry # data))"
    then have "u \<noteq> uuid" "u \<notin> set (keys data)" by (simp_all add: entry keys_def)
    with IH show "path' u = path u" by simp
  next
    show "\<forall>(uuid, v) \<in> set (entry # data). \<exists>content.
           path uuid = Some content
           \<and> path' uuid = Some (join ''\<newline>'' (map str (appended_history data_length content v))
                                @ ''\<newline>'')"
      using c here others by (auto simp: entry)
  qed
qed

lemma append_data_locally_returns:
  "\<forall>uuid \<in> set (keys data). path uuid \<noteq> None \<Longrightarrow> 0 \<le> data_length \<Longrightarrow>
   data_length < 9223372036854775808 \<Longrightarrow>
   \<exists>path'. append_data_locally path data data_length = Inr path'"
proof (induction data arbitrary: path)
  case Nil
  then show ?case by simp
next
  case (Cons entry data)
  obtain uuid v where entry: "entry = (uuid, v)" by (cases entry)
  from Cons.prems(1) obtain content where c: "path uuid = Some content"
    by (auto simp: entry keys_def)
  have "\<exists>path'. append_data_locally
       (path(uuid \<mapsto> join ''\<newline>'' (map str (appended_history data_length content v))
                       @ ''\<newline>''))
       data data_length = Inr path'"
    using Cons.prems by (intro Cons.IH) (auto simp: entry keys_def)
  then show ?case
    unfolding entry
      append_data_locally_step [of path uuid content data_length v data, OF c Cons.prems(2,3)] .
qed


text \<open>
  Claim C6 fails as stated: it covers every positive capacity, but for the capacity \<open>2^63\<close>
  \<open>deque\<close> raises OverflowError, nothing is appended and the record keeps its one line.
\<close>

theorem append_data_locally_fifo_counterexample:
  "append_data_locally
     (Map.empty(''00000000-0000-0000-0000-00000000000a'' \<mapsto> ''10\<newline>''))
     [(''00000000-0000-0000-0000-00000000000a'', 40)] 9223372036854775808
   = Inl (OverflowError, Map.empty(''00000000-0000-0000-0000-00000000000a'' \<mapsto> ''10\<newline>''))"
  by (simp add: deque_def)

text \<open>
  Claim C6, amended. For every capacity that is positive and below \<open>2^63\<close> and every
  dictionary \<open>data\<close> of values to append: when \<open>append_data_locally\<close> returns, the records of
  the VMs outside \<open>data\<close> are unchanged, and for every entry \<open>(uuid, v)\<close> of \<open>data\<close> the
  record of \<open>uuid\<close> existed (its lines are the previous history, of any length) and is
  rewritten with a history \<open>new\<close> of length \<open>min (previous length + 1, capacity)\<close>, hence of
  length at most the capacity, whose last element is \<open>v\<close> and, when \<open>new\<close> is at capacity,
  whose first \<open>capacity - 1\<close> elements are the last \<open>capacity - 1\<close> elements of the
  previous history; when the previous lines are well formed, reading the rewritten record
  back gives the lines of \<open>new\<close>. The function does return when every VM of \<open>data\<close> has a
  record.
\<close>

theorem append_data_locally_fifo:
  "distinct (keys data) \<and> 0 < data_length \<and> data_length < 9223372036854775808 \<longrightarrow>
     ((\<forall>uuid \<in> set (keys data). path uuid \<noteq> None) \<longrightarrow>
        (\<exists>written. append_data_locally path data data_length = Inr written))
     \<and> (append_data_locally path data data_length = Inr path' \<longrightarrow>
          (\<forall>uuid. uuid \<notin> set (keys data) \<longrightarrow> path' uuid = path uuid)
          \<and> (\<forall>(uuid, v) \<in> set data. \<exists>content new.
                path uuid = Some content
                \<and> path' uuid = Some (join ''\<newline>'' (map str new) @ ''\<newline>'')
                \<and> length new = min (length (splitlines (strip content)) + 1) (nat data_length)
                \<and> length new \<le> nat data_length
                \<and> last new = PyInt v
                \<and> (length new = nat data_length \<longrightarrow>
                     take (nat data_length - 1) new
                       = drop (length (splitlines (strip content)) - (nat data_length - 1))
                           (map PyStr (splitlines (strip content))))
                \<and> ((\<forall>l \<in> set (splitlines (strip content)). well_formed_line l) \<longrightarrow>
                     splitlines (strip (join ''\<newline>'' (map str new) @ ''\<newline>''))
                       = map str new)))"
proof (intro impI conjI)
  assume pre: "distinct (keys data) \<and> 0 < data_length \<and> data_length < 9223372036854775808"
  assume "\<forall>uuid \<in> set (keys data). path uuid \<noteq> None"
  then show "\<exists>written. append_data_locally path data data_length = Inr written"
    using pre by (intro append_data_locally_returns) simp_all
next
  assume pre: "distinct (keys data) \<and> 0 < data_length \<and> data_length < 9223372036854775808"
  assume run: "append_data_locally path data data_length = Inr path'"
  from pre have dist: "distinct (keys data)" and pos: "0 < data_length" by simp_all
  note res = append_data_locally_result [OF run dist]
  from res show "\<forall>uuid. uuid \<notin> set (keys data) \<longrightarrow> path' uuid = path uuid" by blast
  show "\<forall>(uuid, v) \<in> set data. \<exists>content new.
                path uuid = Some content
                \<and> path' uuid = Some (join ''\<newline>'' (map str new) @ ''\<newline>'')
                \<and> length new = min (length (splitlines (strip content)) + 1) (nat data_length)
                \<and> length new \<le> nat data_length
                \<and> last new = PyInt v
                \<and> (length new = nat data_length \<longrightarrow>
                     take (nat data_length - 1) new
                       = drop (length (splitlines (strip content)) - (nat data_length - 1))
                           (map PyStr (splitlines (strip content))))
                \<and> ((\<forall>l \<in> set (splitlines (strip content)). well_formed_line l) \<longrightarrow>
                     splitlines (strip (join ''\<newline>'' (map str new) @ ''\<newline>''))
                       = map str new)"
  proof (intro ballI, clarify)
    fix uuid v assume "(uuid, v) \<in> set data"
    with res obtain content where
      c: "path uuid = Some content"
         "path' uuid = Some (join ''\<newline>'' (map str (appended_history data_length content v))
                              @ ''\<newline>'')"
      by fastforce
    note p = appended_history_properties [OF pos, of content v]
    show "\<exists>content new.
                path uuid = Some content
                \<and> path' uuid = Some (join ''\<newline>'' (map str new) @ ''\<newline>'')
                \<and> length new = min (length (splitlines (strip content)) + 1) (nat data_length)
                \<and> length new \<le> nat data_length
                \<and> last new = PyInt v
                \<and> (length new = nat data_length \<longrightarrow>
                     take (nat data_length - 1) new
                       = drop (length (splitlines (strip content)) - (nat data_length - 1))
                           (map PyStr (splitlines (strip content))))
                \<and> ((\<forall>l \<in> set (splitlines (strip content)). well_formed_line l) \<longrightarrow>
                     splitlines (strip (join ''\<newline>'' (map str new) @ ''\<newline>''))
                       = map str new)"
      using c p
      by (intro exI [of _ content] exI [of _ "appended_history data_length content v"]) simp
  qed
qed

theorem append_data_locally_fifo_witness:
  "distinct (keys [(''00000000-0000-0000-0000-00000000000a'', 40::int),
                   (''00000000-0000-0000-0000-00000000000b'', 7)])
   \<and> (0::int) < 3 \<and> (3::int) < 9223372036854775808
   \<and> append_data_locally
     (Map.empty(''00000000-0000-0000-0000-00000000000a'' \<mapsto> ''10\<newline>20\<newline>30\<newline>'',
                ''00000000-0000-0000-0000-00000000000b'' \<mapsto> ''\<newline>''))
     [(''00000000-0000-0000-0000-00000000000a'', 40),
      (''00000000-0000-0000-0000-00000000000b'', 7)] 3
   = Inr (Map.empty(''00000000-0000-0000-0000-00000000000a'' \<mapsto> ''20\<newline>30\<newline>40\<newline>'',
                    ''00000000-0000-0000-0000-00000000000b'' \<mapsto> ''7\<newline>''))"
proof -
  have eq: "(Map.empty(''00000000-0000-0000-0000-00000000000a'' \<mapsto> ''10\<newline>20\<newline>30\<newline>'',
                ''00000000-0000-0000-0000-00000000000b'' \<mapsto> ''\<newline>''))
             (''00000000-0000-0000-0000-00000000000a'' \<mapsto> ''20\<newline>30\<newline>40\<newline>'',
              ''00000000-0000-0000-0000-00000000000b'' \<mapsto> ''7\<newline>'')
          = Map.empty(''00000000-0000-0000-0000-00000000000a'' \<mapsto> ''20\<newline>30\<newline>40\<newline>'',
                      ''00000000-0000-0000-0000-00000000000b'' \<mapsto> ''7\<newline>'')"
    by (rule ext) simp
  have run: "append_data_locally
     (Map.empty(''00000000-0000-0000-0000-00000000000a'' \<mapsto> ''10\<newline>20\<newline>30\<newline>'',
                ''00000000-0000-0000-0000-00000000000b'' \<mapsto> ''\<newline>''))
     [(''00000000-0000-0000-0000-00000000000a'', 40),
      (''00000000-0000-0000-0000-00000000000b'', 7)] 3
   = Inr (Map.empty(''00000000-0000-0000-0000-00000000000a'' \<mapsto> ''20\<newline>30\<newline>40\<newline>'',
                    ''00000000-0000-0000-0000-00000000000b'' \<mapsto> ''7\<newline>''))"
    by (simp add: strip_def is_space_def splitlines_def deque_def deque_append_def
          digits.simps eq)
  from append_data_locally_fifo
    [of "[(''00000000-0000-0000-0000-00000000000a'', 40),
          (''00000000-0000-0000-0000-00000000000b'', 7)]" 3
        "Map.empty(''00000000-0000-0000-0000-00000000000a'' \<mapsto> ''10\<newline>20\<newline>30\<newline>'',
                   ''00000000-0000-0000-0000-00000000000b'' \<mapsto> ''\<newline>'')"
        "Map.empty(''00000000-0000-0000-0000-00000000000a'' \<mapsto> ''20\<newline>30\<newline>40\<newline>'',
                   ''00000000-0000-0000-0000-00000000000b'' \<mapsto> ''7\<newline>'')"]
  show ?thesis unfolding run by (simp add: keys_def)
qed

section \<open>Properties of the sampling pass\<close>

lemma set_substract_lists: "set (substract_lists list1 list2) = set list1 - set list2"
  by (auto simp: substract_lists_def)

lemma distinct_substract_lists: "distinct (substract_lists list1 list2)"
  by (simp add: substract_lists_def)

lemma dom_map_of_keys: "dom (map_of d) = set (keys d)"
  by (simp add: keys_def dom_map_of_conv_image_fst)

lemma sample_previous_vms_Inr:
  "sample_previous_vms vir cpus pt ct entries pc mhz = Inr (pc', mhz') \<Longrightarrow>
     dom (map_of pc') = dom (map_of pc) \<union> fst ` set entries
     \<and> dom (map_of mhz') = dom (map_of mhz) \<union> fst ` set entries
     \<and> (\<forall>u \<in> fst ` set entries. \<exists>c. get_cpu_time vir u = Inr c)"
proof (induction entries arbitrary: pc mhz)
  case Nil
  then show ?case by simp
next
  case (Cons item entries)
  obtain uuid cpu_time where item: "item = (uuid, cpu_time)" by (cases item)
  from Cons.prems obtain c v where
    c: "get_cpu_time vir uuid = Inr c" and
    v: "calculate_cpu_mhz cpus pt ct cpu_time c = Inr v" and
    rest: "sample_previous_vms vir cpus pt ct entries
             (AList.update uuid c pc) (AList.update uuid v mhz) = Inr (pc', mhz')"
    unfolding item by (auto split: sum.splits)
  from Cons.IH [OF rest] c show ?case
    unfolding item by (auto simp: update_conv')
qed

lemma seed_added_vms_Inr:
  "seed_added_vms vir data uuids pc mhz = Inr (pc', mhz') \<Longrightarrow>
     dom (map_of pc') = dom (map_of pc) \<union> set uuids
     \<and> dom (map_of mhz') \<subseteq> dom (map_of mhz) \<union> set uuids
     \<and> (\<forall>u. u \<notin> set uuids \<longrightarrow> map_of pc' u = map_of pc u \<and> map_of mhz' u = map_of mhz u)
     \<and> (\<forall>u \<in> set uuids. \<exists>h c. map_of data u = Some h \<and> get_cpu_time vir u = Inr c
            \<and> map_of pc' u = Some c
            \<and> map_of mhz' u = (if h = [] then map_of mhz u else Some (last h)))"
proof (induction uuids arbitrary: pc mhz)
  case Nil
  then show ?case by simp
next
  case (Cons uuid uuids)
  from Cons.prems obtain h c where
    h: "map_of data uuid = Some h" and
    c: "get_cpu_time vir uuid = Inr c" and
    rest: "seed_added_vms vir data uuids (AList.update uuid c pc)
             (if h \<noteq> [] then AList.update uuid (last h) mhz else mhz) = Inr (pc', mhz')"
    by (auto simp: Let_def split: option.splits sum.splits)
  note IH = Cons.IH [OF rest]
  show ?case
  proof (intro conjI allI ballI impI)
    show "dom (map_of pc') = dom (map_of pc) \<union> set (uuid # uuids)"
      using IH by (auto simp: update_conv')
    show "dom (map_of mhz') \<subseteq> dom (map_of mhz) \<union> set (uuid # uuids)"
      using IH by (auto simp: update_conv' split: if_splits)
  next
    fix u assume "u \<notin> set (uuid # uuids)"
    then show "map_of pc' u = map_of pc u" "map_of mhz' u = map_of mhz u"
      using IH by (auto simp: update_conv')
  next
    fix u assume u: "u \<in> set (uuid # uuids)"
    show "\<exists>h c. map_of data u = Some h \<and> get_cpu_time vir u = Inr c
            \<and> map_of pc' u = Some c
            \<and> map_of mhz' u = (if h = [] then map_of mhz u else Some (last h))"
    proof (cases "u \<in> set uuids")
      case True
      with IH obtain h' c' where
        *: "map_of data u = Some h'" "get_cpu_time vir u = Inr c'" "map_of pc' u = Some c'"
           "map_of mhz' u = (if h' = [] then map_of (if h \<noteq> [] then AList.update uuid (last h) mhz else mhz) u
                             else Some (last h'))"
        by blast
      show ?thesis
      proof (cases "u = uuid")
        case True
        with * h have "h' = h" by simp
        with * True show ?thesis by (auto simp: update_conv')
      next
        case False
        with * show ?thesis by (auto simp: update_conv')
      qed
    next
      case False
      with u have eq: "u = uuid" by simp
      from False IH have "map_of pc' u = map_of (AList.update uuid c pc) u"
        "map_of mhz' u = map_of (if h \<noteq> [] then AList.update uuid (last h) mhz else mhz) u"
        by blast+
      with eq h c show ?thesis by (auto simp: update_conv')
    qed
  qed
qed

lemma drop_removed_vms_Inr:
  "drop_removed_vms uuids pc mhz = Inr (pc', mhz') \<Longrightarrow>
     map_of pc' = map_of pc |` (- set uuids) \<and> map_of mhz' = map_of mhz |` (- set uuids)"
proof (induction uuids arbitrary: pc mhz)
  case Nil
  then show ?case by simp
next
  case (Cons uuid uuids)
  from Cons.prems have
    rest: "drop_removed_vms uuids (AList.delete uuid pc) (AList.delete uuid mhz) = Inr (pc', mhz')"
    by (auto simp: Let_def split: if_splits)
  from Cons.IH [OF rest] show ?case
    by (auto simp: delete_conv' restrict_map_def fun_eq_iff)
qed

lemma sample_previous_vms_returns:
  "(\<forall>u \<in> fst ` set entries. \<exists>c. get_cpu_time vir u = Inr c) \<Longrightarrow>
   entries = [] \<or> (ct - pt) * 1000000000 * cpus \<noteq> 0 \<Longrightarrow>
   \<exists>r. sample_previous_vms vir cpus pt ct entries pc mhz = Inr r"
proof (induction entries arbitrary: pc mhz)
  case Nil
  then show ?case by simp
next
  case (Cons item entries)
  obtain uuid cpu_time where item: "item = (uuid, cpu_time)" by (cases item)
  from Cons.prems obtain c where c: "get_cpu_time vir uuid = Inr c"
    unfolding item by auto
  from Cons.prems have d: "(ct - pt) * 1000000000 * cpus \<noteq> 0" by simp
  have v: "calculate_cpu_mhz cpus pt ct cpu_time c
             = Inr ((c - cpu_time) div ((ct - pt) * 1000000000 * cpus))"
    using d by (rule calculate_cpu_mhz_Inr)
  have "\<exists>r. sample_previous_vms vir cpus pt ct entries (AList.update uuid c pc)
          (AList.update uuid ((c - cpu_time) div ((ct - pt) * 1000000000 * cpus)) mhz) = Inr r"
    using Cons.prems d by (intro Cons.IH) auto
  then show ?case unfolding item by (simp add: c v)
qed

lemma seed_added_vms_returns:
  "(\<forall>u \<in> set uuids. (\<exists>c. get_cpu_time vir u = Inr c) \<and> map_of data u \<noteq> None) \<Longrightarrow>
   \<exists>r. seed_added_vms vir data uuids pc mhz = Inr r"
proof (induction uuids arbitrary: pc mhz)
  case Nil
  then show ?case by simp
next
  case (Cons uuid uuids)
  from Cons.prems obtain c h where c: "get_cpu_time vir uuid = Inr c"
    and h: "map_of data uuid = Some h" by auto
  have "\<exists>r. seed_added_vms vir data uuids (AList.update uuid c pc)
          (if h \<noteq> [] then AList.update uuid (last h) mhz else mhz) = Inr r"
    using Cons.prems by (intro Cons.IH) auto
  then show ?case by (simp add: c h Let_def)
qed

lemma drop_removed_vms_returns:
  "distinct uuids \<Longrightarrow> set uuids \<subseteq> dom (map_of pc) \<Longrightarrow> set uuids \<subseteq> dom (map_of mhz) \<Longrightarrow>
   \<exists>r. drop_removed_vms uuids pc mhz = Inr r"
proof (induction uuids arbitrary: pc mhz)
  case Nil
  then show ?case by simp
next
  case (Cons uuid uuids)
  have "\<exists>r. drop_removed_vms uuids (AList.delete uuid pc) (AList.delete uuid mhz) = Inr r"
    using Cons.prems by (intro Cons.IH) (auto simp: delete_conv')
  moreover have "map_of pc uuid \<noteq> None" "map_of mhz uuid \<noteq> None"
    using Cons.prems by auto
  ultimately show ?case by (simp add: Let_def)
qed


lemma get_cpu_mhz_InrD:
  assumes "get_cpu_mhz vir cpus prev pt ct cur data = Inr (pc', mhz')"
  obtains pc1 mhz1 pc2 mhz2 where
    "sample_previous_vms vir cpus pt ct prev prev [] = Inr (pc1, mhz1)"
    "seed_added_vms vir data (get_added_vms (keys prev) cur) pc1 mhz1 = Inr (pc2, mhz2)"
    "drop_removed_vms (get_removed_vms (keys prev) cur) pc2 mhz2 = Inr (pc', mhz')"
  using assms unfolding get_cpu_mhz_def Let_def by (auto split: sum.splits prod.splits)

lemma set_get_added_vms: "set (get_added_vms previous_vms current_vms) = set current_vms - set previous_vms"
  by (simp add: get_added_vms_def set_substract_lists)

lemma set_get_removed_vms: "set (get_removed_vms previous_vms current_vms) = set previous_vms - set current_vms"
  by (simp add: get_removed_vms_def set_substract_lists)

lemma get_cpu_mhz_key_sets:
  assumes "get_cpu_mhz vir cpus prev pt ct cur data = Inr (pc', mhz')"
  shows "set (keys pc') = set cur" and "set (keys mhz') \<subseteq> set cur"
proof -
  from assms obtain pc1 mhz1 pc2 mhz2 where
    l1: "sample_previous_vms vir cpus pt ct prev prev [] = Inr (pc1, mhz1)" and
    l2: "seed_added_vms vir data (get_added_vms (keys prev) cur) pc1 mhz1 = Inr (pc2, mhz2)" and
    l3: "drop_removed_vms (get_removed_vms (keys prev) cur) pc2 mhz2 = Inr (pc', mhz')"
    by (rule get_cpu_mhz_InrD)
  have p: "fst ` set prev = set (keys prev)" by (simp add: keys_def)
  from sample_previous_vms_Inr [OF l1]
  have 1: "dom (map_of pc1) = set (keys prev)" "dom (map_of mhz1) = set (keys prev)"
    by (simp_all add: dom_map_of_keys p)
  from seed_added_vms_Inr [OF l2]
  have 2: "dom (map_of pc2) = set (keys prev) \<union> set cur"
    "dom (map_of mhz2) \<subseteq> set (keys prev) \<union> set cur"
    unfolding 1 set_get_added_vms by auto
  from drop_removed_vms_Inr [OF l3]
  have 3: "dom (map_of pc') = dom (map_of pc2) - (set (keys prev) - set cur)"
    "dom (map_of mhz') = dom (map_of mhz2) - (set (keys prev) - set cur)"
    unfolding set_get_removed_vms by (auto simp: restrict_map_def dom_def split: if_splits)
  show "set (keys pc') = set cur"
    using 2 3 by (auto simp: dom_map_of_keys [symmetric])
  show "set (keys mhz') \<subseteq> set cur"
    using 2 3 by (auto simp: dom_map_of_keys [symmetric])
qed

lemma get_cpu_mhz_added_vm:
  assumes res: "get_cpu_mhz vir cpus prev pt ct cur data = Inr (pc', mhz')"
    and cur: "uuid \<in> set cur" and new: "map_of prev uuid = None"
  shows "\<exists>h c. map_of data uuid = Some h \<and> get_cpu_time vir uuid = Inr c
           \<and> map_of mhz' uuid = (if h = [] then None else Some (last h))
           \<and> map_of pc' uuid = Some c"
proof -
  from res obtain pc1 mhz1 pc2 mhz2 where
    l1: "sample_previous_vms vir cpus pt ct prev prev [] = Inr (pc1, mhz1)" and
    l2: "seed_added_vms vir data (get_added_vms (keys prev) cur) pc1 mhz1 = Inr (pc2, mhz2)" and
    l3: "drop_removed_vms (get_removed_vms (keys prev) cur) pc2 mhz2 = Inr (pc', mhz')"
    by (rule get_cpu_mhz_InrD)
  have p: "fst ` set prev = set (keys prev)" by (simp add: keys_def)
  from new have notprev: "uuid \<notin> set (keys prev)"
    by (simp add: dom_map_of_keys [symmetric] dom_def)
  from sample_previous_vms_Inr [OF l1] have "dom (map_of mhz1) = set (keys prev)"
    by (simp add: p)
  with notprev have m1: "map_of mhz1 uuid = None" by blast
  from cur notprev have "uuid \<in> set (get_added_vms (keys prev) cur)"
    by (simp add: set_get_added_vms)
  with seed_added_vms_Inr [OF l2] obtain h c where
    hc: "map_of data uuid = Some h" "get_cpu_time vir uuid = Inr c"
        "map_of pc2 uuid = Some c"
        "map_of mhz2 uuid = (if h = [] then map_of mhz1 uuid else Some (last h))"
    by blast
  from notprev have "uuid \<in> - set (get_removed_vms (keys prev) cur)"
    by (simp add: set_get_removed_vms)
  with drop_removed_vms_Inr [OF l3]
  have "map_of pc' uuid = map_of pc2 uuid" "map_of mhz' uuid = map_of mhz2 uuid"
    by (simp_all add: restrict_map_def)
  with hc m1 show ?thesis by simp
qed

lemma get_cpu_mhz_queries_succeeded:
  assumes res: "get_cpu_mhz vir cpus prev pt ct cur data = Inr (pc', mhz')"
    and u: "uuid \<in> set (keys prev) \<union> set cur"
  shows "\<exists>c. get_cpu_time vir uuid = Inr c"
proof -
  from res obtain pc1 mhz1 pc2 mhz2 where
    l1: "sample_previous_vms vir cpus pt ct prev prev [] = Inr (pc1, mhz1)" and
    l2: "seed_added_vms vir data (get_added_vms (keys prev) cur) pc1 mhz1 = Inr (pc2, mhz2)"
    by (rule get_cpu_mhz_InrD)
  have p: "fst ` set prev = set (keys prev)" by (simp add: keys_def)
  show ?thesis
  proof (cases "uuid \<in> set (keys prev)")
    case True
    with sample_previous_vms_Inr [OF l1] show ?thesis unfolding p by blast
  next
    case False
    with u have "uuid \<in> set (get_added_vms (keys prev) cur)"
      by (simp add: set_get_added_vms)
    with seed_added_vms_Inr [OF l2] show ?thesis by blast
  qed
qed

lemma get_cpu_mhz_returns:
  assumes q: "\<forall>u \<in> set (keys prev) \<union> set cur. \<exists>c. get_cpu_time vir u = Inr c"
    and d: "\<forall>u \<in> set (get_added_vms (keys prev) cur). map_of data u \<noteq> None"
    and t: "prev = [] \<or> (ct - pt) * 1000000000 * cpus \<noteq> 0"
  shows "\<exists>pc' mhz'. get_cpu_mhz vir cpus prev pt ct cur data = Inr (pc', mhz')"
proof -
  have p: "fst ` set prev = set (keys prev)" by (simp add: keys_def)
  have "\<exists>r. sample_previous_vms vir cpus pt ct prev prev [] = Inr r"
    using q t by (intro sample_previous_vms_returns) (auto simp: p)
  then obtain pc1 mhz1 where
    l1: "sample_previous_vms vir cpus pt ct prev prev [] = Inr (pc1, mhz1)" by auto
  have "\<exists>r. seed_added_vms vir data (get_added_vms (keys prev) cur) pc1 mhz1 = Inr r"
    using q d by (intro seed_added_vms_returns) (auto simp: set_get_added_vms)
  then obtain pc2 mhz2 where
    l2: "seed_added_vms vir data (get_added_vms (keys prev) cur) pc1 mhz1 = Inr (pc2, mhz2)"
    by auto
  from sample_previous_vms_Inr [OF l1]
  have 1: "dom (map_of pc1) = set (keys prev)" "dom (map_of mhz1) = set (keys prev)"
    by (simp_all add: dom_map_of_keys p)
  note 2 = seed_added_vms_Inr [OF l2]
  have r_pc: "set (get_removed_vms (keys prev) cur) \<subseteq> dom (map_of pc2)"
    using 2 1 by (auto simp: set_get_removed_vms)
  have r_mhz: "set (get_removed_vms (keys prev) cur) \<subseteq> dom (map_of mhz2)"
  proof
    fix u assume "u \<in> set (get_removed_vms (keys prev) cur)"
    then have "u \<in> set (keys prev)" "u \<notin> set (get_added_vms (keys prev) cur)"
      by (simp_all add: set_get_removed_vms set_get_added_vms)
    with 2 1 have "map_of mhz2 u = map_of mhz1 u" "u \<in> dom (map_of mhz1)" by simp_all
    then show "u \<in> dom (map_of mhz2)" by (simp add: dom_def)
  qed
  have "distinct (get_removed_vms (keys prev) cur)"
    by (simp add: get_removed_vms_def distinct_substract_lists)
  then have "\<exists>r. drop_removed_vms (get_removed_vms (keys prev) cur) pc2 mhz2 = Inr r"
    using r_pc r_mhz by (rule drop_removed_vms_returns)
  then show ?thesis
    unfolding get_cpu_mhz_def Let_def by (auto simp: l1 l2)
qed


text \<open>
  The association lists that the pass returns have one entry per key when the previous
  counters have: they are dictionaries again.
\<close>

lemma distinct_keys_update: "distinct (keys d) \<Longrightarrow> distinct (keys (AList.update k v d))"
  unfolding keys_def by (rule distinct_update)

lemma distinct_keys_delete: "distinct (keys d) \<Longrightarrow> distinct (keys (AList.delete k d))"
  unfolding keys_def by (rule distinct_delete)

lemma sample_previous_vms_distinct:
  "sample_previous_vms vir cpus pt ct entries pc mhz = Inr (pc', mhz') \<Longrightarrow>
   distinct (keys pc) \<Longrightarrow> distinct (keys mhz) \<Longrightarrow> distinct (keys pc') \<and> distinct (keys mhz')"
proof (induction entries arbitrary: pc mhz)
  case Nil
  then show ?case by simp
next
  case (Cons entry entries)
  obtain uuid cpu_time where entry: "entry = (uuid, cpu_time)" by (cases entry)
  from Cons.prems(1) obtain c v where
    rest: "sample_previous_vms vir cpus pt ct entries
             (AList.update uuid c pc) (AList.update uuid v mhz) = Inr (pc', mhz')"
    unfolding entry by (auto split: sum.splits)
  from rest show ?case
    by (rule Cons.IH) (simp_all add: distinct_keys_update Cons.prems)
qed

lemma seed_added_vms_distinct:
  "seed_added_vms vir data uuids pc mhz = Inr (pc', mhz') \<Longrightarrow>
   distinct (keys pc) \<Longrightarrow> distinct (keys mhz) \<Longrightarrow> distinct (keys pc') \<and> distinct (keys mhz')"
proof (induction uuids arbitrary: pc mhz)
  case Nil
  then show ?case by simp
next
  case (Cons uuid uuids)
  from Cons.prems(1) obtain h c where
    rest: "seed_added_vms vir data uuids (AList.update uuid c pc)
             (if h \<noteq> [] then AList.update uuid (last h) mhz else mhz) = Inr (pc', mhz')"
    by (auto simp: Let_def split: option.splits sum.splits)
  from rest show ?case
    by (rule Cons.IH) (simp_all add: distinct_keys_update Cons.prems)
qed

lemma drop_removed_vms_distinct:
  "drop_removed_vms uuids pc mhz = Inr (pc', mhz') \<Longrightarrow>
   distinct (keys pc) \<Longrightarrow> distinct (keys mhz) \<Longrightarrow> distinct (keys pc') \<and> distinct (keys mhz')"
proof (induction uuids arbitrary: pc mhz)
  case Nil
  then show ?case by simp
next
  case (Cons uuid uuids)
  from Cons.prems(1) have
    rest: "drop_removed_vms uuids (AList.delete uuid pc) (AList.delete uuid mhz) = Inr (pc', mhz')"
    by (auto simp: Let_def split: if_splits)
  from rest show ?case
    by (rule Cons.IH) (simp_all add: distinct_keys_delete Cons.prems)
qed

lemma get_cpu_mhz_distinct_keys:
  assumes "get_cpu_mhz vir cpus prev pt ct cur data = Inr (pc', mhz')"
    and "distinct (keys prev)"
  shows "distinct (keys pc') \<and> distinct (keys mhz')"
proof -
  from assms(1) obtain pc1 mhz1 pc2 mhz2 where
    l1: "sample_previous_vms vir cpus pt ct prev prev [] = Inr (pc1, mhz1)" and
    l2: "seed_added_vms vir data (get_added_vms (keys prev) cur) pc1 mhz1 = Inr (pc2, mhz2)" and
    l3: "drop_removed_vms (get_removed_vms (keys prev) cur) pc2 mhz2 = Inr (pc', mhz')"
    by (rule get_cpu_mhz_InrD)
  have 1: "distinct (keys pc1) \<and> distinct (keys mhz1)"
    using l1 assms(2) by (rule sample_previous_vms_distinct) (simp add: keys_def)
  have 2: "distinct (keys pc2) \<and> distinct (keys mhz2)"
    using l2 by (rule seed_added_vms_distinct) (simp_all add: 1)
  show ?thesis
    using l3 by (rule drop_removed_vms_distinct) (simp_all add: 2)
qed

text \<open>Which exception an aborted pass raises.\<close>

lemma calculate_cpu_mhz_InlD:
  "calculate_cpu_mhz cpus pt ct pc cc = Inl e \<Longrightarrow>
     e = ZeroDivisionError \<and> (ct - pt) * 1000000000 * cpus = 0"
  unfolding calculate_cpu_mhz_def Let_def by (simp split: if_splits)

lemma sample_previous_vms_Inl:
  "sample_previous_vms vir cpus pt ct entries pc mhz = Inl (e, pc') \<Longrightarrow>
     (\<exists>u \<in> fst ` set entries. get_cpu_time vir u = Inl e)
     \<or> (e = ZeroDivisionError \<and> entries \<noteq> [] \<and> (ct - pt) * 1000000000 * cpus = 0)"
proof (induction entries arbitrary: pc mhz)
  case Nil
  then show ?case by simp
next
  case (Cons entry entries)
  obtain uuid cpu_time where entry: "entry = (uuid, cpu_time)" by (cases entry)
  show ?case
  proof (cases "get_cpu_time vir uuid")
    case (Inl e')
    with Cons.prems have "e' = e" by (simp add: entry)
    with Inl have "get_cpu_time vir uuid = Inl e" by simp
    then show ?thesis by (simp add: entry)
  next
    case c: (Inr c)
    show ?thesis
    proof (cases "calculate_cpu_mhz cpus pt ct cpu_time c")
      case (Inl e')
      with Cons.prems c have "e' = e" by (simp add: entry)
      with Inl have "calculate_cpu_mhz cpus pt ct cpu_time c = Inl e" by simp
      from calculate_cpu_mhz_InlD [OF this] show ?thesis by simp
    next
      case (Inr v)
      with Cons.prems c have
        "sample_previous_vms vir cpus pt ct entries
           (AList.update uuid c pc) (AList.update uuid v mhz) = Inl (e, pc')"
        by (simp add: entry)
      from Cons.IH [OF this] show ?thesis by (simp add: entry) blast
    qed
  qed
qed


lemma seed_added_vms_Inl:
  "seed_added_vms vir data uuids pc mhz = Inl (e, pc') \<Longrightarrow>
     (\<exists>u \<in> set uuids. get_cpu_time vir u = Inl e)
     \<or> (e = KeyError \<and> (\<exists>u \<in> set uuids. map_of data u = None))"
proof (induction uuids arbitrary: pc mhz)
  case Nil
  then show ?case by simp
next
  case (Cons uuid uuids)
  show ?case
  proof (cases "map_of data uuid")
    case None
    with Cons.prems have "e = KeyError" by simp
    with None show ?thesis by simp
  next
    case (Some h)
    show ?thesis
    proof (cases "get_cpu_time vir uuid")
      case (Inl e')
      with Cons.prems Some have "e' = e" by (simp add: Let_def)
      with Inl have "get_cpu_time vir uuid = Inl e" by simp
      then show ?thesis by simp
    next
      case (Inr c)
      with Cons.prems Some have
        "seed_added_vms vir data uuids (AList.update uuid c pc)
           (if h \<noteq> [] then AList.update uuid (last h) mhz else mhz) = Inl (e, pc')"
        by (simp add: Let_def)
      from Cons.IH [OF this] show ?thesis by simp blast
    qed
  qed
qed

lemma get_cpu_mhz_query_failure:
  assumes u: "uuid \<in> set (keys prev) \<union> set cur" and f: "get_cpu_time vir uuid = Inl e"
  shows "\<exists>e' pc'. get_cpu_mhz vir cpus prev pt ct cur data = Inl (e', pc')
           \<and> ((\<exists>u \<in> set (keys prev) \<union> set cur. get_cpu_time vir u = Inl e')
                \<or> (e' = ZeroDivisionError \<and> prev \<noteq> [] \<and> (ct - pt) * 1000000000 * cpus = 0)
                \<or> (e' = KeyError
                     \<and> (\<exists>u \<in> set (get_added_vms (keys prev) cur). map_of data u = None)))"
proof -
  have p: "fst ` set prev = set (keys prev)" by (simp add: keys_def)
  show ?thesis
  proof (cases "sample_previous_vms vir cpus pt ct prev prev []")
    case (Inl failure)
    obtain e' pc' where failure: "failure = (e', pc')" by (cases failure)
    from Inl have r: "get_cpu_mhz vir cpus prev pt ct cur data = Inl (e', pc')"
      by (simp add: get_cpu_mhz_def Let_def failure)
    from Inl have "sample_previous_vms vir cpus pt ct prev prev [] = Inl (e', pc')"
      by (simp add: failure)
    from sample_previous_vms_Inl [OF this]
    have "(\<exists>u \<in> set (keys prev). get_cpu_time vir u = Inl e')
          \<or> (e' = ZeroDivisionError \<and> prev \<noteq> [] \<and> (ct - pt) * 1000000000 * cpus = 0)"
      unfolding p .
    then have "(\<exists>u \<in> set (keys prev) \<union> set cur. get_cpu_time vir u = Inl e')
          \<or> (e' = ZeroDivisionError \<and> prev \<noteq> [] \<and> (ct - pt) * 1000000000 * cpus = 0)"
      by blast
    with r show ?thesis by blast
  next
    case (Inr result1)
    obtain pc1 mhz1 where l1: "sample_previous_vms vir cpus pt ct prev prev [] = Inr (pc1, mhz1)"
      using Inr by (cases result1) simp
    have "uuid \<notin> set (keys prev)"
    proof
      assume "uuid \<in> set (keys prev)"
      with sample_previous_vms_Inr [OF l1] have "\<exists>c. get_cpu_time vir uuid = Inr c"
        unfolding p by blast
      with f show False by simp
    qed
    with u have added: "uuid \<in> set (get_added_vms (keys prev) cur)"
      by (simp add: set_get_added_vms)
    show ?thesis
    proof (cases "seed_added_vms vir data (get_added_vms (keys prev) cur) pc1 mhz1")
      case (Inl failure)
      obtain e' pc' where failure: "failure = (e', pc')" by (cases failure)
      from Inl l1 have r: "get_cpu_mhz vir cpus prev pt ct cur data = Inl (e', pc')"
        by (simp add: get_cpu_mhz_def Let_def failure)
      from Inl have
        "seed_added_vms vir data (get_added_vms (keys prev) cur) pc1 mhz1 = Inl (e', pc')"
        by (simp add: failure)
      from seed_added_vms_Inl [OF this]
      have "(\<exists>u \<in> set cur - set (keys prev). get_cpu_time vir u = Inl e')
            \<or> (e' = KeyError
                 \<and> (\<exists>u \<in> set (get_added_vms (keys prev) cur). map_of data u = None))"
        by (simp only: set_get_added_vms)
      then have "(\<exists>u \<in> set (keys prev) \<union> set cur. get_cpu_time vir u = Inl e')
            \<or> (e' = KeyError
                 \<and> (\<exists>u \<in> set (get_added_vms (keys prev) cur). map_of data u = None))"
        by blast
      with r show ?thesis by blast
    next
      case (Inr result2)
      obtain pc2 mhz2 where
        l2: "seed_added_vms vir data (get_added_vms (keys prev) cur) pc1 mhz1 = Inr (pc2, mhz2)"
        using Inr by (cases result2) simp
      from seed_added_vms_Inr [OF l2] added have "\<exists>c. get_cpu_time vir uuid = Inr c"
        by blast
      with f show ?thesis by simp
    qed
  qed
qed

text \<open>
  Claim C8 fails as stated. One tracked VM whose counter query fails and one newly added VM
  whose query would succeed and whose fetched history is \<open>[7]\<close>: the pass aborts with the
  failure of the first, and produces neither a sample nor a baseline for the second.
\<close>

theorem get_cpu_mhz_query_failure_counterexample:
  "get_cpu_mhz
     (\<lambda>uuid. if uuid = ''00000000-0000-0000-0000-00000000000c'' then Inr 500
             else Inl LibvirtError)
     2 [(''00000000-0000-0000-0000-00000000000b'', 100)] 0 5
     [''00000000-0000-0000-0000-00000000000b'', ''00000000-0000-0000-0000-00000000000c'']
     [(''00000000-0000-0000-0000-00000000000c'', [7])]
   = Inl (LibvirtError, [(''00000000-0000-0000-0000-00000000000b'', 100)])"
  by (simp add: get_cpu_mhz_def get_cpu_time_def)

text \<open>
  Claim C8, amended. During a sampling pass, a failure of the per-VM counter query for any
  VM that the pass queries (a VM with a previous counter, or a VM of the current list)
  aborts the whole pass: \<open>get_cpu_mhz\<close> returns neither samples nor counters for any VM,
  it raises an exception. The exception is the query failure of one of the queried VMs,
  unless the pass first meets a degenerate interval (ZeroDivisionError, only with a previous
  counter and a zero divisor) or an added VM without an entry in \<open>added_vm_data\<close>
  (KeyError).
\<close>

theorem get_cpu_mhz_query_failure_aborts:
  "uuid \<in> set (keys previous_cpu_time) \<union> set current_vms
     \<and> get_cpu_time vir_connection uuid = Inl e \<longrightarrow>
   (\<exists>e' previous_cpu_time'.
      get_cpu_mhz vir_connection physical_cpus previous_cpu_time previous_time current_time
        current_vms added_vm_data = Inl (e', previous_cpu_time')
      \<and> ((\<exists>u \<in> set (keys previous_cpu_time) \<union> set current_vms.
             get_cpu_time vir_connection u = Inl e')
          \<or> (e' = ZeroDivisionError \<and> previous_cpu_time \<noteq> []
               \<and> (current_time - previous_time) * 1000000000 * physical_cpus = 0)
          \<or> (e' = KeyError
               \<and> (\<exists>u \<in> set (get_added_vms (keys previous_cpu_time) current_vms).
                     map_of added_vm_data u = None))))"
proof (intro impI)
  assume "uuid \<in> set (keys previous_cpu_time) \<union> set current_vms
     \<and> get_cpu_time vir_connection uuid = Inl e"
  then have u: "uuid \<in> set (keys previous_cpu_time) \<union> set current_vms"
    and f: "get_cpu_time vir_connection uuid = Inl e" by simp_all
  from u f show "\<exists>e' previous_cpu_time'.
      get_cpu_mhz vir_connection physical_cpus previous_cpu_time previous_time current_time
        current_vms added_vm_data = Inl (e', previous_cpu_time')
      \<and> ((\<exists>u \<in> set (keys previous_cpu_time) \<union> set current_vms.
             get_cpu_time vir_connection u = Inl e')
          \<or> (e' = ZeroDivisionError \<and> previous_cpu_time \<noteq> []
               \<and> (current_time - previous_time) * 1000000000 * physical_cpus = 0)
          \<or> (e' = KeyError
               \<and> (\<exists>u \<in> set (get_added_vms (keys previous_cpu_time) current_vms).
                     map_of added_vm_data u = None)))"
    by (rule get_cpu_mhz_query_failure)
qed

theorem get_cpu_mhz_query_failure_aborts_witness:
  "''00000000-0000-0000-0000-00000000000b''
     \<in> set (keys [(''00000000-0000-0000-0000-00000000000a'', 10),
                    (''00000000-0000-0000-0000-00000000000b'', 20)])
         \<union> set [''00000000-0000-0000-0000-00000000000a'',
                  ''00000000-0000-0000-0000-00000000000b'']
   \<and> get_cpu_time
         (\<lambda>uuid. if uuid = ''00000000-0000-0000-0000-00000000000a'' then Inr 30
                  else Inl LibvirtError)
         ''00000000-0000-0000-0000-00000000000b'' = Inl LibvirtError
   \<and> get_cpu_mhz
         (\<lambda>uuid. if uuid = ''00000000-0000-0000-0000-00000000000a'' then Inr 30
                  else Inl LibvirtError)
         4 [(''00000000-0000-0000-0000-00000000000a'', 10),
            (''00000000-0000-0000-0000-00000000000b'', 20)] 100 160
         [''00000000-0000-0000-0000-00000000000a'', ''00000000-0000-0000-0000-00000000000b'']
         []
       = Inl (LibvirtError, [(''00000000-0000-0000-0000-00000000000a'', 30),
                             (''00000000-0000-0000-0000-00000000000b'', 20)])"
  using get_cpu_mhz_query_failure_aborts
    [where uuid = "''00000000-0000-0000-0000-00000000000b''"
       and previous_cpu_time = "[(''00000000-0000-0000-0000-00000000000a'', 10),
                                 (''00000000-0000-0000-0000-00000000000b'', 20)]"
       and current_vms = "[''00000000-0000-0000-0000-00000000000a'',
                           ''00000000-0000-0000-0000-00000000000b'']"
       and vir_connection = "\<lambda>uuid. if uuid = ''00000000-0000-0000-0000-00000000000a''
                               then Inr 30 else Inl LibvirtError"
       and e = LibvirtError and physical_cpus = 4 and previous_time = 100
       and current_time = 160 and added_vm_data = "[]"]
  by (simp add: keys_def get_cpu_time_def get_cpu_mhz_def calculate_cpu_mhz_def)

text \<open>
  Claim C9. When the pass returns, for every VM of the current list that has no previous
  counter on record, no rate is computed: the sample of that VM is the last element of its
  history in \<open>added_vm_data\<close> when that history is not empty, there is no sample for it
  when the history is empty, and in both cases the returned counters hold the VM's current
  raw counter. The pass does return when every counter query succeeds, \<open>added_vm_data\<close>
  has an entry for every added VM, and the interval is not degenerate (or no VM has a
  previous counter).
\<close>

theorem get_cpu_mhz_seeds_added_vm:
  "(get_cpu_mhz vir_connection physical_cpus previous_cpu_time previous_time current_time
        current_vms added_vm_data = Inr (previous_cpu_time', cpu_mhz')
      \<and> uuid \<in> set current_vms \<and> map_of previous_cpu_time uuid = None \<longrightarrow>
      (\<exists>history current_cpu_time.
         map_of added_vm_data uuid = Some history
         \<and> get_cpu_time vir_connection uuid = Inr current_cpu_time
         \<and> map_of cpu_mhz' uuid = (if history = [] then None else Some (last history))
         \<and> map_of previous_cpu_time' uuid = Some current_cpu_time))
   \<and> ((\<forall>u \<in> set (keys previous_cpu_time) \<union> set current_vms.
          \<exists>c. get_cpu_time vir_connection u = Inr c)
      \<and> (\<forall>u \<in> set (get_added_vms (keys previous_cpu_time) current_vms).
            map_of added_vm_data u \<noteq> None)
      \<and> (previous_cpu_time = []
           \<or> (current_time - previous_time) * 1000000000 * physical_cpus \<noteq> 0) \<longrightarrow>
      (\<exists>counters samples.
         get_cpu_mhz vir_connection physical_cpus previous_cpu_time previous_time current_time
           current_vms added_vm_data = Inr (counters, samples)))"
proof (intro conjI impI)
  assume "get_cpu_mhz vir_connection physical_cpus previous_cpu_time previous_time current_time
        current_vms added_vm_data = Inr (previous_cpu_time', cpu_mhz')
      \<and> uuid \<in> set current_vms \<and> map_of previous_cpu_time uuid = None"
  then have r: "get_cpu_mhz vir_connection physical_cpus previous_cpu_time previous_time
        current_time current_vms added_vm_data = Inr (previous_cpu_time', cpu_mhz')"
    and u: "uuid \<in> set current_vms" and n: "map_of previous_cpu_time uuid = None"
    by simp_all
  from r u n have "\<exists>h c. map_of added_vm_data uuid = Some h \<and> get_cpu_time vir_connection uuid = Inr c
           \<and> map_of cpu_mhz' uuid = (if h = [] then None else Some (last h))
           \<and> map_of previous_cpu_time' uuid = Some c"
    by (rule get_cpu_mhz_added_vm)
  then show "\<exists>history current_cpu_time.
         map_of added_vm_data uuid = Some history
         \<and> get_cpu_time vir_connection uuid = Inr current_cpu_time
         \<and> map_of cpu_mhz' uuid = (if history = [] then None else Some (last history))
         \<and> map_of previous_cpu_time' uuid = Some current_cpu_time" .
next
  assume "(\<forall>u \<in> set (keys previous_cpu_time) \<union> set current_vms.
          \<exists>c. get_cpu_time vir_connection u = Inr c)
      \<and> (\<forall>u \<in> set (get_added_vms (keys previous_cpu_time) current_vms).
            map_of added_vm_data u \<noteq> None)
      \<and> (previous_cpu_time = []
           \<or> (current_time - previous_time) * 1000000000 * physical_cpus \<noteq> 0)"
  then show "\<exists>counters samples.
         get_cpu_mhz vir_connection physical_cpus previous_cpu_time previous_time current_time
           current_vms added_vm_data = Inr (counters, samples)"
    by (intro get_cpu_mhz_returns) simp_all
qed

theorem get_cpu_mhz_seeds_added_vm_witness:
  "get_cpu_mhz
     (\<lambda>uuid. if uuid = ''00000000-0000-0000-0000-00000000000b'' then Inr 10000000100
             else if uuid = ''00000000-0000-0000-0000-00000000000c'' then Inr 500
             else if uuid = ''00000000-0000-0000-0000-00000000000d'' then Inr 700
             else Inl LibvirtError)
     2 [(''00000000-0000-0000-0000-00000000000b'', 100)] 0 5
     [''00000000-0000-0000-0000-00000000000b'', ''00000000-0000-0000-0000-00000000000c'',
      ''00000000-0000-0000-0000-00000000000d'']
     [(''00000000-0000-0000-0000-00000000000c'', [3, 7]),
      (''00000000-0000-0000-0000-00000000000d'', [])]
   = Inr ([(''00000000-0000-0000-0000-00000000000b'', 10000000100),
           (''00000000-0000-0000-0000-00000000000c'', 500),
           (''00000000-0000-0000-0000-00000000000d'', 700)],
          [(''00000000-0000-0000-0000-00000000000b'', 1),
           (''00000000-0000-0000-0000-00000000000c'', 7)])
   \<and> map_of [(''00000000-0000-0000-0000-00000000000b'', 1::int),
              (''00000000-0000-0000-0000-00000000000c'', 7)]
        ''00000000-0000-0000-0000-00000000000c'' = Some 7
   \<and> map_of [(''00000000-0000-0000-0000-00000000000b'', 1::int),
              (''00000000-0000-0000-0000-00000000000c'', 7)]
        ''00000000-0000-0000-0000-00000000000d'' = None"
  using get_cpu_mhz_seeds_added_vm
    [of "\<lambda>uuid. if uuid = ''00000000-0000-0000-0000-00000000000b'' then Inr 10000000100
             else if uuid = ''00000000-0000-0000-0000-00000000000c'' then Inr 500
             else if uuid = ''00000000-0000-0000-0000-00000000000d'' then Inr 700
             else Inl LibvirtError"
        2 "[(''00000000-0000-0000-0000-00000000000b'', 100)]" 0 5
        "[''00000000-0000-0000-0000-00000000000b'', ''00000000-0000-0000-0000-00000000000c'',
          ''00000000-0000-0000-0000-00000000000d'']"
        "[(''00000000-0000-0000-0000-00000000000c'', [3, 7]),
          (''00000000-0000-0000-0000-00000000000d'', [])]"
        "[(''00000000-0000-0000-0000-00000000000b'', 10000000100),
          (''00000000-0000-0000-0000-00000000000c'', 500),
          (''00000000-0000-0000-0000-00000000000d'', 700)]"
        "[(''00000000-0000-0000-0000-00000000000b'', 1),
          (''00000000-0000-0000-0000-00000000000c'', 7)]"
        "''00000000-0000-0000-0000-00000000000c''"]
  by (simp add: get_cpu_mhz_def get_cpu_time_def keys_def get_added_vms_def
        get_removed_vms_def substract_lists_def calculate_cpu_mhz_def)

text \<open>
  Claim C10. For every previous-counter dictionary, list of current VMs and \<open>added_vm_data\<close>
  covering the added VMs, provided every counter query succeeds (and the interval is not
  degenerate, or no VM has a previous counter), \<open>get_cpu_mhz\<close> returns, the keys of the
  returned counters are exactly the current VMs, and every key of the returned samples is
  a current VM. The two facts about the keys hold whenever \<open>get_cpu_mhz\<close> returns.
\<close>

theorem get_cpu_mhz_tracks_current_vms:
  "((\<forall>u \<in> set (keys previous_cpu_time) \<union> set current_vms.
          \<exists>c. get_cpu_time vir_connection u = Inr c)
      \<and> (\<forall>u \<in> set (get_added_vms (keys previous_cpu_time) current_vms).
            map_of added_vm_data u \<noteq> None)
      \<and> (previous_cpu_time = []
           \<or> (current_time - previous_time) * 1000000000 * physical_cpus \<noteq> 0) \<longrightarrow>
      (\<exists>counters samples.
         get_cpu_mhz vir_connection physical_cpus previous_cpu_time previous_time current_time
           current_vms added_vm_data = Inr (counters, samples)
         \<and> set (keys counters) = set current_vms \<and> set (keys samples) \<subseteq> set current_vms))
   \<and> (get_cpu_mhz vir_connection physical_cpus previous_cpu_time previous_time current_time
        current_vms added_vm_data = Inr (previous_cpu_time', cpu_mhz') \<longrightarrow>
      set (keys previous_cpu_time') = set current_vms
      \<and> set (keys cpu_mhz') \<subseteq> set current_vms)"
proof (intro conjI impI)
  assume "(\<forall>u \<in> set (keys previous_cpu_time) \<union> set current_vms.
          \<exists>c. get_cpu_time vir_connection u = Inr c)
      \<and> (\<forall>u \<in> set (get_added_vms (keys previous_cpu_time) current_vms).
            map_of added_vm_data u \<noteq> None)
      \<and> (previous_cpu_time = []
           \<or> (current_time - previous_time) * 1000000000 * physical_cpus \<noteq> 0)"
  then obtain counters samples where
    r: "get_cpu_mhz vir_connection physical_cpus previous_cpu_time previous_time current_time
           current_vms added_vm_data = Inr (counters, samples)"
    using get_cpu_mhz_returns by blast
  from get_cpu_mhz_key_sets [OF r] r
  show "\<exists>counters samples.
         get_cpu_mhz vir_connection physical_cpus previous_cpu_time previous_time current_time
           current_vms added_vm_data = Inr (counters, samples)
         \<and> set (keys counters) = set current_vms \<and> set (keys samples) \<subseteq> set current_vms"
    by blast
next
  assume r: "get_cpu_mhz vir_connection physical_cpus previous_cpu_time previous_time current_time
        current_vms added_vm_data = Inr (previous_cpu_time', cpu_mhz')"
  show "set (keys previous_cpu_time') = set current_vms"
    using r by (rule get_cpu_mhz_key_sets)
  show "set (keys cpu_mhz') \<subseteq> set current_vms"
    using r by (rule get_cpu_mhz_key_sets)
qed

theorem get_cpu_mhz_tracks_current_vms_witness:
  "get_cpu_mhz
     (\<lambda>uuid. if uuid = ''00000000-0000-0000-0000-00000000000a'' then Inr 60
             else if uuid = ''00000000-0000-0000-0000-00000000000b'' then Inr 30000000100
             else if uuid = ''00000000-0000-0000-0000-00000000000c'' then Inr 500
             else Inl LibvirtError)
     1 [(''00000000-0000-0000-0000-00000000000a'', 50),
        (''00000000-0000-0000-0000-00000000000b'', 100)] 10 20
     [''00000000-0000-0000-0000-00000000000b'', ''00000000-0000-0000-0000-00000000000c'']
     [(''00000000-0000-0000-0000-00000000000c'', [4])]
   = Inr ([(''00000000-0000-0000-0000-00000000000b'', 30000000100),
           (''00000000-0000-0000-0000-00000000000c'', 500)],
          [(''00000000-0000-0000-0000-00000000000b'', 3),
           (''00000000-0000-0000-0000-00000000000c'', 4)])
   \<and> set (keys [(''00000000-0000-0000-0000-00000000000b'', 30000000100::int),
                 (''00000000-0000-0000-0000-00000000000c'', 500)])
       = set [''00000000-0000-0000-0000-00000000000b'', ''00000000-0000-0000-0000-00000000000c'']"
  using get_cpu_mhz_tracks_current_vms
    [of "[(''00000000-0000-0000-0000-00000000000a'', 50),
          (''00000000-0000-0000-0000-00000000000b'', 100)]"
        "[''00000000-0000-0000-0000-00000000000b'', ''00000000-0000-0000-0000-00000000000c'']"
        "\<lambda>uuid. if uuid = ''00000000-0000-0000-0000-00000000000a'' then Inr 60
             else if uuid = ''00000000-0000-0000-0000-00000000000b'' then Inr 30000000100
             else if uuid = ''00000000-0000-0000-0000-00000000000c'' then Inr 500
             else Inl LibvirtError"
        "[(''00000000-0000-0000-0000-00000000000c'', [4])]" 20 10 1
        "[(''00000000-0000-0000-0000-00000000000b'', 30000000100),
          (''00000000-0000-0000-0000-00000000000c'', 500)]"
        "[(''00000000-0000-0000-0000-00000000000b'', 3),
          (''00000000-0000-0000-0000-00000000000c'', 4)]"]
  by (simp add: get_cpu_mhz_def get_cpu_time_def keys_def get_added_vms_def
        get_removed_vms_def substract_lists_def calculate_cpu_mhz_def)

end
